theory Spec2Isabelle
  imports Complex_Main "HOL-Library.Multiset" "HOL-Library.Option_ord" "HOL-Library.Log_Nat"
begin

section \<open>Country refresh service: data model\<close>

text \<open>
  The development follows \<^verbatim>\<open>app/models.py\<close> and \<^verbatim>\<open>app/services.py\<close>.
  A Python \<^verbatim>\<open>float\<close> is the real number it stands for, and every arithmetic
  operation on floats rounds its exact result to the nearest double (\<open>round_double\<close>
  below); infinities and NaN are not represented.  A \<^verbatim>\<open>datetime\<close> is a natural
  number of clock ticks, a \<^verbatim>\<open>str\<close> a \<^typ>\<open>string\<close>.  The tables
  \<^verbatim>\<open>countries\<close> and \<^verbatim>\<open>app_metadata\<close> are lists of rows in storage order.
  The columns \<^verbatim>\<open>Country.id\<close>, \<^verbatim>\<open>AppMetadata.id\<close> and
  \<^verbatim>\<open>AppMetadata.last_refreshed_at\<close> are called \<open>country_id\<close>, \<open>metadata_id\<close> and
  \<open>metadata_last_refreshed_at\<close>, since \<open>id\<close> is a constant of HOL and record fields
  share one name space.
\<close>

type_synonym datetime = nat

record country =
  country_id :: nat
  name :: string
  capital :: "string option"
  region :: "string option"
  population :: int
  currency_code :: "string option"
  exchange_rate :: "real option"
  estimated_gdp :: "real option"
  flag_url :: "string option"
  last_refreshed_at :: datetime

record app_metadata =
  metadata_id :: nat
  metadata_last_refreshed_at :: "datetime option"

text \<open>
  One element of the \<^verbatim>\<open>currencies\<close> array of the country source, and one raw country
  record.  A field that \<^verbatim>\<open>dict.get\<close> may find missing is an option; the source always
  delivers \<^verbatim>\<open>name\<close>.
\<close>

record currency =
  code :: "string option"
  currency_name :: "string option"
  symbol :: "string option"

record country_data =
  data_name :: string
  data_capital :: "string option"
  data_region :: "string option"
  data_population :: "int option"
  data_flag :: "string option"
  data_currencies :: "currency list option"

type_synonym exchange_rates = "string \<rightharpoonup> real"

datatype exn =
  Exception string
  | MultipleResultsFound
  | IntegrityError

fun str :: "exn \<Rightarrow> string" where
  "str (Exception m) = m"
| "str MultipleResultsFound = ''Multiple rows were found when one or none was required''"
| "str IntegrityError = ''IntegrityError''"

text \<open>
  The persisted state (also the working copy a session holds before it commits), and the
  part of the process state outside the database: how often the clock and the random
  generator have been read, and what has been printed.
\<close>

record database =
  countries :: "country list"
  metadata :: "app_metadata list"
  next_id :: nat

record world =
  ticks :: nat
  draws :: nat
  stdout :: "string list"

text \<open>
  What a cycle meets outside the program: the answers of the two HTTP calls, the clock
  (its \<open>i\<close>-th reading), \<^verbatim>\<open>random.random()\<close> (its \<open>i\<close>-th draw, in \<open>[0, 1)\<close>), and
  whether drawing and saving the summary image raises.
\<close>

datatype 'a http_outcome =
  TimeoutException
  | HTTPError string
  | Response 'a

record env =
  countries_response :: "country_data list http_outcome"
  rates_response :: "exchange_rates option http_outcome"
  clock :: "nat \<Rightarrow> datetime"
  random_draw :: "nat \<Rightarrow> real"
  image_failure :: "nat \<Rightarrow> country list \<Rightarrow> datetime \<Rightarrow> exn option"

section \<open>External API functions\<close>

definition fetch_countries_data :: "env \<Rightarrow> exn + country_data list" where
  "fetch_countries_data e =
     (case countries_response e of
        Response json \<Rightarrow> Inr json
      | TimeoutException \<Rightarrow> Inl (Exception ''Timeout while fetching countries data'')
      | HTTPError m \<Rightarrow>
          Inl (Exception (''Could not fetch data from restcountries API - '' @ m)))"

definition fetch_exchange_rate :: "env \<Rightarrow> exn + exchange_rates" where
  "fetch_exchange_rate e =
     (case rates_response e of
        Response data \<Rightarrow> Inr (case data of None \<Rightarrow> Map.empty | Some rates \<Rightarrow> rates)
      | TimeoutException \<Rightarrow> Inl (Exception ''Timeout while fetching exchange rate'')
      | HTTPError m \<Rightarrow>
          Inl (Exception (''Could not fetch data from open.er-api API - '' @ m)))"

section \<open>Business logic functions\<close>

fun extract_currency_code :: "currency list \<Rightarrow> string option" where
  "extract_currency_code [] = None"
| "extract_currency_code (first_currency # rest) = code first_currency"

text \<open>
  Double precision arithmetic (IEEE 754 binary64, rounding to nearest, ties to even).
  A positive real \<open>x\<close> with \<open>2\<^sup>e \<le> x < 2\<^sup>e\<^sup>+\<^sup>1\<close> is rounded to a multiple of
  \<open>2\<^sup>e\<^sup>-\<^sup>5\<^sup>2\<close>, and to a multiple of \<open>2\<^sup>-\<^sup>1\<^sup>0\<^sup>7\<^sup>4\<close> below the
  normal range; a result beyond the largest double, which Python turns into an infinity or
  an \<^verbatim>\<open>OverflowError\<close>, is not represented.
\<close>

definition round_half_even :: "real \<Rightarrow> int" where
  "round_half_even q =
     (let f = \<lfloor>q\<rfloor>; d = q - of_int f
      in if d < 1 / 2 then f else if 1 / 2 < d then f + 1 else if even f then f else f + 1)"

definition exponent :: "real \<Rightarrow> int" where
  "exponent x =
     (if 1 \<le> x then bitlen \<lfloor>x\<rfloor> - 1
      else (let k = bitlen \<lfloor>1 / x\<rfloor> - 1
            in if x * 2 powi k = 1 then - k else - k - 1))"

definition ulp :: "real \<Rightarrow> real" where
  "ulp x = 2 powi (max (exponent x) (- 1022) - 52)"

definition round_positive :: "real \<Rightarrow> real" where
  "round_positive x = of_int (round_half_even (x / ulp x)) * ulp x"

definition round_double :: "real \<Rightarrow> real" where
  "round_double x =
     (if x = 0 then 0 else if 0 < x then round_positive x else - round_positive (- x))"

text \<open>The conversion of a Python \<^verbatim>\<open>int\<close> that meets a \<^verbatim>\<open>float\<close> in an operation.\<close>

definition float_of_int :: "int \<Rightarrow> real" where
  "float_of_int n = round_double (real_of_int n)"

text \<open>
  \<^verbatim>\<open>random.uniform(a, b)\<close> is \<^verbatim>\<open>a + (b - a) * random()\<close>, here on two
  \<^verbatim>\<open>int\<close>s: the product and the sum are rounded.  It reads one draw.
\<close>

definition random_uniform :: "env \<Rightarrow> int \<Rightarrow> int \<Rightarrow> world \<Rightarrow> real \<times> world" where
  "random_uniform e a b w =
     (round_double (float_of_int a + round_double (float_of_int (b - a) * random_draw e (draws w))),
      w\<lparr>draws := Suc (draws w)\<rparr>)"

text \<open>Line 100: \<^verbatim>\<open>(population * random_multiplier) / exchange_rate\<close>.\<close>

definition gdp_formula :: "int \<Rightarrow> real \<Rightarrow> real \<Rightarrow> real" where
  "gdp_formula population' random_multiplier rate =
     round_double (round_double (float_of_int population' * random_multiplier) / rate)"

definition calculate_estimated_gdp ::
  "env \<Rightarrow> int \<Rightarrow> real option \<Rightarrow> world \<Rightarrow> real option \<times> world" where
  "calculate_estimated_gdp e population' exchange_rate' w =
     (case exchange_rate' of
        None \<Rightarrow> (None, w)
      | Some rate \<Rightarrow>
          if rate = 0 then (None, w)
          else (let (random_multiplier, w') = random_uniform e 1000 2000 w
                in (Some (gdp_formula population' random_multiplier rate), w')))"

text \<open>
  SQL's \<^verbatim>\<open>lower()\<close>, on ASCII letters; Python's truth value of an optional string
  (\<^verbatim>\<open>None\<close> and the empty string are false).
\<close>

definition lower_char :: "char \<Rightarrow> char" where
  "lower_char c =
     (let n = (of_char c :: nat) in if 65 \<le> n \<and> n \<le> 90 then char_of (n + 32) else c)"

definition lower :: "string \<Rightarrow> string" where
  "lower s = map lower_char s"

definition truthy :: "string option \<Rightarrow> bool" where
  "truthy s = (s \<noteq> None \<and> s \<noteq> Some [])"

text \<open>\<^verbatim>\<open>Result.scalar_one_or_none()\<close> raises when the query has more than one row.\<close>

fun scalar_one_or_none :: "'a list \<Rightarrow> exn + 'a option" where
  "scalar_one_or_none [] = Inr None"
| "scalar_one_or_none [x] = Inr (Some x)"
| "scalar_one_or_none (x # y # rest) = Inl MultipleResultsFound"

definition now :: "env \<Rightarrow> world \<Rightarrow> datetime \<times> world" where
  "now e w = (clock e (ticks w), w\<lparr>ticks := Suc (ticks w)\<rparr>)"

definition print :: "string \<Rightarrow> world \<Rightarrow> world" where
  "print line w = w\<lparr>stdout := stdout w @ [line]\<rparr>"

text \<open>
  \<^verbatim>\<open>select(Country).where(func.lower(Country.name) == func.lower(name))\<close>, the query of
  \<^verbatim>\<open>upsert_country\<close> and of \<^verbatim>\<open>get_country_by_name\<close>.
\<close>

definition select_country_by_name :: "database \<Rightarrow> string \<Rightarrow> country list" where
  "select_country_by_name session n = filter (\<lambda>c. lower (name c) = lower n) (countries session)"

text \<open>
  The steps of \<^verbatim>\<open>upsert_country\<close> before its query: the rate of the currency code, looked
  up only for a code that is true (lines 118 to 120);
  \<^verbatim>\<open>country_data.get("population", 0)\<close> (line 123);
  \<^verbatim>\<open>country_data.get("currencies", [])\<close> (line 115); and
  \<^verbatim>\<open>estimated_gdp if estimated_gdp is not None else 0\<close> (lines 139 and 152).
\<close>

definition lookup_exchange_rate :: "exchange_rates \<Rightarrow> string option \<Rightarrow> real option" where
  "lookup_exchange_rate rates currency_code' =
     (case currency_code' of
        None \<Rightarrow> None
      | Some k \<Rightarrow> if truthy (Some k) then rates k else None)"

definition population_of :: "country_data \<Rightarrow> int" where
  "population_of d = (case data_population d of None \<Rightarrow> 0 | Some p \<Rightarrow> p)"

definition currencies_of :: "country_data \<Rightarrow> currency list" where
  "currencies_of d = (case data_currencies d of None \<Rightarrow> [] | Some cs \<Rightarrow> cs)"

definition gdp_or_zero :: "real option \<Rightarrow> real option" where
  "gdp_or_zero estimated_gdp' = (case estimated_gdp' of None \<Rightarrow> Some 0 | Some g \<Rightarrow> Some g)"

definition upsert_country ::
  "env \<Rightarrow> database \<Rightarrow> country_data \<Rightarrow> exchange_rates \<Rightarrow> world
     \<Rightarrow> (exn + country \<times> database) \<times> world" where
  "upsert_country e session d rates w =
     (let currency_code' = extract_currency_code (currencies_of d);
          exchange_rate' = lookup_exchange_rate rates currency_code';
          population' = population_of d;
          (estimated_gdp', w1) = calculate_estimated_gdp e population' exchange_rate' w
      in case scalar_one_or_none (select_country_by_name session (data_name d)) of
           Inl x \<Rightarrow> (Inl x, w1)
         | Inr (Some existing_country) \<Rightarrow>
             (let (t, w2) = now e w1;
                  updated = existing_country
                    \<lparr>capital := data_capital d,
                     region := data_region d,
                     population := population',
                     currency_code := currency_code',
                     exchange_rate := exchange_rate',
                     estimated_gdp := gdp_or_zero estimated_gdp',
                     flag_url := data_flag d,
                     last_refreshed_at := t\<rparr>
              in (Inr (updated,
                       session\<lparr>countries :=
                         map (\<lambda>c. if country_id c = country_id existing_country
                                  then updated else c) (countries session)\<rparr>), w2))
         | Inr None \<Rightarrow>
             (let (t, w2) = now e w1;
                  new_country =
                    \<lparr>country_id = next_id session,
                     name = data_name d,
                     capital = data_capital d,
                     region = data_region d,
                     population = population',
                     currency_code = currency_code',
                     exchange_rate = exchange_rate',
                     estimated_gdp = gdp_or_zero estimated_gdp',
                     flag_url = data_flag d,
                     last_refreshed_at = t\<rparr>
              in (Inr (new_country,
                       session\<lparr>countries := countries session @ [new_country],
                               next_id := Suc (next_id session)\<rparr>), w2)))"

text \<open>The loop of \<^verbatim>\<open>refresh_all_countries\<close>: an exception of one upsert ends it.\<close>

fun upsert_all ::
  "env \<Rightarrow> exchange_rates \<Rightarrow> country_data list \<Rightarrow> database \<Rightarrow> world
     \<Rightarrow> (exn + database) \<times> world" where
  "upsert_all e rates [] session w = (Inr session, w)"
| "upsert_all e rates (d # ds) session w =
     (case upsert_country e session d rates w of
        (Inl x, w') \<Rightarrow> (Inl x, w')
      | (Inr (c, session'), w') \<Rightarrow> upsert_all e rates ds session' w')"

definition update_app_metadata :: "database \<Rightarrow> datetime \<Rightarrow> exn + database" where
  "update_app_metadata session refresh_time =
     (case scalar_one_or_none (filter (\<lambda>m. metadata_id m = 1) (metadata session)) of
        Inl x \<Rightarrow> Inl x
      | Inr (Some m) \<Rightarrow>
          Inr (session\<lparr>metadata :=
                 map (\<lambda>r. if metadata_id r = metadata_id m
                          then m\<lparr>metadata_last_refreshed_at := Some refresh_time\<rparr> else r)
                     (metadata session)\<rparr>)
      | Inr None \<Rightarrow>
          Inr (session\<lparr>metadata := metadata session
                 @ [\<lparr>metadata_id = 1, metadata_last_refreshed_at = Some refresh_time\<rparr>]\<rparr>))"

text \<open>
  The constraints the two tables are declared with in \<^verbatim>\<open>app/models.py\<close>:
  \<^verbatim>\<open>id\<close> is the primary key of each, and \<^verbatim>\<open>Country.name\<close> has
  \<^verbatim>\<open>unique=True\<close>, a uniqueness constraint on the column as stored (the model
  declares no collation; two strings are equal when their characters are).  The session's
  pending rows are visible to its next query, and a commit that would break a constraint
  raises \<^verbatim>\<open>IntegrityError\<close>.
\<close>

definition primary_key :: "country list \<Rightarrow> bool" where
  "primary_key rows = distinct (map country_id rows)"

definition unique_name :: "country list \<Rightarrow> bool" where
  "unique_name rows = distinct (map name rows)"

definition metadata_primary_key :: "app_metadata list \<Rightarrow> bool" where
  "metadata_primary_key rows = distinct (map metadata_id rows)"

definition commit :: "database \<Rightarrow> exn + database" where
  "commit session =
     (if primary_key (countries session) \<and> unique_name (countries session)
         \<and> metadata_primary_key (metadata session)
      then Inr session else Inl IntegrityError)"

section \<open>Query functions\<close>

text \<open>
  \<^verbatim>\<open>ORDER BY\<close> is a stable sort of the rows in storage order; a null sorts before
  every value.
\<close>

definition order_by_asc :: "(country \<Rightarrow> 'k::linorder) \<Rightarrow> country list \<Rightarrow> country list" where
  "order_by_asc key rows = sort_key key rows"

definition order_by_desc :: "(country \<Rightarrow> 'k::linorder) \<Rightarrow> country list \<Rightarrow> country list" where
  "order_by_desc key rows = rev (sort_key key (rev rows))"


definition get_country_by_name :: "database \<Rightarrow> string \<Rightarrow> exn + country option" where
  "get_country_by_name session n = scalar_one_or_none (select_country_by_name session n)"

text \<open>\<^verbatim>\<open>session.delete\<close> removes the row with the object's primary key.\<close>

definition delete_country_by_name :: "database \<Rightarrow> string \<Rightarrow> (exn + bool) \<times> database" where
  "delete_country_by_name db n =
     (case get_country_by_name db n of
        Inl x \<Rightarrow> (Inl x, db)
      | Inr (Some country') \<Rightarrow>
          (case commit (db\<lparr>countries :=
                   filter (\<lambda>c. country_id c \<noteq> country_id country') (countries db)\<rparr>) of
             Inl x \<Rightarrow> (Inl x, db)
           | Inr db' \<Rightarrow> (Inr True, db'))
      | Inr None \<Rightarrow> (Inr False, db))"

definition get_top_countries_by_gdp :: "database \<Rightarrow> nat \<Rightarrow> country list" where
  "get_top_countries_by_gdp session limit = take limit (order_by_desc estimated_gdp (countries session))"

section \<open>Image generation and the refresh cycle\<close>

text \<open>
  \<^verbatim>\<open>generate_summary_image\<close> draws the total, at most five countries and the time, and
  saves the file; the drawing library and the file system decide whether it raises.
\<close>

definition generate_summary_image ::
  "env \<Rightarrow> nat \<Rightarrow> country list \<Rightarrow> datetime \<Rightarrow> exn + unit" where
  "generate_summary_image e total_countries top_countries last_refreshed =
     (case image_failure e total_countries (take 5 top_countries) last_refreshed of
        Some x \<Rightarrow> Inl x
      | None \<Rightarrow> Inr ())"

text \<open>
  \<^verbatim>\<open>refresh_all_countries\<close>.  The result carries the persisted state after the call:
  the session's working copy once \<^verbatim>\<open>session.commit()\<close> has returned, the state before
  the call when an exception leaves the function first (the session is closed without a
  commit).
\<close>

definition refresh_all_countries ::
  "env \<Rightarrow> database \<Rightarrow> world \<Rightarrow> (exn + nat \<times> datetime) \<times> database \<times> world" where
  "refresh_all_countries e db w =
     (case fetch_countries_data e of
        Inl x \<Rightarrow> (Inl x, db, w)
      | Inr countries_data \<Rightarrow>
     (case fetch_exchange_rate e of
        Inl x \<Rightarrow> (Inl x, db, w)
      | Inr rates \<Rightarrow>
     (case upsert_all e rates countries_data db w of
        (Inl x, w1) \<Rightarrow> (Inl x, db, w1)
      | (Inr session, w1) \<Rightarrow>
     (let (refresh_time, w2) = now e w1 in
      case update_app_metadata session refresh_time of
        Inl x \<Rightarrow> (Inl x, db, w2)
      | Inr session' \<Rightarrow>
     (case commit session' of
        Inl x \<Rightarrow> (Inl x, db, w2)
      | Inr db' \<Rightarrow>
     (let top_countries = get_top_countries_by_gdp db' 5;
          w3 = (case generate_summary_image e (length countries_data) top_countries refresh_time of
                  Inl img_error \<Rightarrow>
                    print (''Warning: Failed to generate image: '' @ str img_error) w2
                | Inr u \<Rightarrow> w2)
      in (Inr (length countries_data, refresh_time), db', w3)))))))"

section \<open>Invariants of the persisted state\<close>

definition case_insensitive_unique :: "country list \<Rightarrow> bool" where
  "case_insensitive_unique rows = distinct (map (\<lambda>c. lower (name c)) rows)"

definition well_formed :: "database \<Rightarrow> bool" where
  "well_formed db =
     (primary_key (countries db)
      \<and> list_all (\<lambda>c. country_id c < next_id db) (countries db)
      \<and> case_insensitive_unique (countries db)
      \<and> metadata_primary_key (metadata db))"

definition empty_db :: database where
  "empty_db = \<lparr>countries = [], metadata = [], next_id = 1\<rparr>"

text \<open>
  The states one reaches from the empty store by refresh cycles and deletions, one after
  the other.
\<close>

inductive reachable :: "database \<Rightarrow> bool" where
  initial: "reachable empty_db"
| refresh: "reachable db \<Longrightarrow> refresh_all_countries e db w = (r, db', w') \<Longrightarrow> reachable db'"
| delete: "reachable db \<Longrightarrow> delete_country_by_name db n = (b, db') \<Longrightarrow> reachable db'"

section \<open>Example data\<close>

definition world0 :: world where
  "world0 = \<lparr>ticks = 0, draws = 0, stdout = []\<rparr>"

definition ngn :: currency where
  "ngn = \<lparr>code = Some ''NGN'', currency_name = Some ''Nigerian naira'', symbol = None\<rparr>"

definition nigeria_data :: country_data where
  "nigeria_data =
     \<lparr>data_name = ''Nigeria'', data_capital = Some ''Abuja'', data_region = Some ''Africa'',
      data_population = Some 200000000, data_flag = Some ''url'',
      data_currencies = Some [ngn]\<rparr>"

definition nigeria_upper_data :: country_data where
  "nigeria_upper_data =
     \<lparr>data_name = ''NIGERIA'', data_capital = Some ''Lagos'', data_region = Some ''Africa'',
      data_population = Some 5, data_flag = None, data_currencies = None\<rparr>"

definition example_rates :: exchange_rates where
  "example_rates = [''NGN'' \<mapsto> 1600]"

definition example_env :: env where
  "example_env =
     \<lparr>countries_response = Response [nigeria_data, nigeria_upper_data],
      rates_response = Response (Some example_rates),
      clock = (\<lambda>i. 100 + i),
      random_draw = (\<lambda>i. 1 / 2),
      image_failure = (\<lambda>n top t. Some (Exception ''cannot write cache/summary.png''))\<rparr>"

definition top_draw_env :: env where
  "top_draw_env = example_env\<lparr>random_draw := (\<lambda>i. 1 - 1 / 2 ^ 53)\<rparr>"

definition rates_down_env :: env where
  "rates_down_env = example_env\<lparr>rates_response := TimeoutException\<rparr>"

definition nigeria_row :: country where
  "nigeria_row =
     \<lparr>country_id = 1, name = ''Nigeria'', capital = Some ''Abuja'', region = Some ''Africa'',
      population = 200000000, currency_code = Some ''NGN'', exchange_rate = Some 1600,
      estimated_gdp = Some 187500000, flag_url = Some ''url'', last_refreshed_at = 100\<rparr>"

definition nigeria_upper_row :: country where
  "nigeria_upper_row = nigeria_row\<lparr>country_id := 2, name := ''NIGERIA''\<rparr>"

definition one_country_db :: database where
  "one_country_db = \<lparr>countries = [nigeria_row], metadata = [], next_id = 2\<rparr>"

definition refreshed_row :: country where
  "refreshed_row =
     \<lparr>country_id = 1, name = ''Nigeria'', capital = Some ''Lagos'', region = Some ''Africa'',
      population = 5, currency_code = None, exchange_rate = None,
      estimated_gdp = Some 0, flag_url = None, last_refreshed_at = 101\<rparr>"

definition refreshed_session :: database where
  "refreshed_session = \<lparr>countries = [refreshed_row], metadata = [], next_id = 2\<rparr>"

definition refreshed_db :: database where
  "refreshed_db = refreshed_session
     \<lparr>metadata := [\<lparr>metadata_id = 1, metadata_last_refreshed_at = Some 102\<rparr>]\<rparr>"

definition world_after_upserts :: world where
  "world_after_upserts = \<lparr>ticks = 2, draws = 1, stdout = []\<rparr>"

definition world_after_refresh :: world where
  "world_after_refresh =
     \<lparr>ticks = 3, draws = 1,
      stdout = [''Warning: Failed to generate image: cannot write cache/summary.png'']\<rparr>"

definition case_variants_db :: database where
  "case_variants_db = \<lparr>countries = [nigeria_row, nigeria_upper_row], metadata = [], next_id = 3\<rparr>"

section \<open>Rounding to doubles is monotone\<close>

lemma round_half_even_bounds:
  "of_int \<lfloor>q\<rfloor> \<le> (of_int (round_half_even q) :: real)" "round_half_even q \<le> \<lfloor>q\<rfloor> + 1"
  by (simp_all add: round_half_even_def Let_def)

lemma round_half_even_of_int [simp]: "round_half_even (of_int n) = n"
  by (simp add: round_half_even_def)

lemma round_half_even_mono:
  assumes "q \<le> q'"
  shows "round_half_even q \<le> round_half_even q'"
proof (cases "\<lfloor>q\<rfloor> = \<lfloor>q'\<rfloor>")
  case True
  with assms show ?thesis
    by (auto simp: round_half_even_def Let_def)
next
  case False
  with assms have "\<lfloor>q\<rfloor> < \<lfloor>q'\<rfloor>"
    by (simp add: floor_mono order.strict_iff_order)
  then have "\<lfloor>q\<rfloor> + 1 \<le> \<lfloor>q'\<rfloor>" by simp
  moreover have "round_half_even q \<le> \<lfloor>q\<rfloor> + 1" by (rule round_half_even_bounds)
  moreover have "\<lfloor>q'\<rfloor> \<le> round_half_even q'"
    by (simp add: round_half_even_def Let_def)
  ultimately show ?thesis by linarith
qed

lemma pow2_bitlen_bounds:
  fixes y :: real
  assumes "1 \<le> y"
  shows "2 powi (bitlen \<lfloor>y\<rfloor> - 1) \<le> y \<and> y < 2 powi (bitlen \<lfloor>y\<rfloor>)"
proof -
  let ?m = "\<lfloor>y\<rfloor>"
  from assms have m: "0 < ?m" by simp
  from bitlen_bounds [OF m]
  have lo: "2 ^ nat (bitlen ?m - 1) \<le> ?m" and hi: "?m < 2 ^ nat (bitlen ?m)" by simp_all
  from m have b1: "1 \<le> bitlen ?m" by (auto simp: bitlen_alt_def)
  have "(2::real) powi (bitlen ?m - 1) = 2 ^ nat (bitlen ?m - 1)"
    using b1 by (simp add: power_int_nonneg_exp)
  also have "\<dots> = of_int (2 ^ nat (bitlen ?m - 1))" by simp
  also have "\<dots> \<le> of_int ?m" using lo by (simp only: of_int_le_iff)
  also have "\<dots> \<le> y" by simp
  finally have 1: "2 powi (bitlen ?m - 1) \<le> y" .
  have "?m + 1 \<le> 2 ^ nat (bitlen ?m)" using hi by simp
  then have "(of_int (?m + 1) :: real) \<le> of_int (2 ^ nat (bitlen ?m))"
    by (simp only: of_int_le_iff)
  moreover have "y < of_int (?m + 1)" by simp
  ultimately have "y < of_int (2 ^ nat (bitlen ?m))" by linarith
  also have "\<dots> = 2 powi (bitlen ?m)"
    using b1 by (simp add: power_int_nonneg_exp)
  finally show ?thesis using 1 by simp
qed

lemma exponent_bounds:
  assumes "0 < x"
  shows "2 powi (exponent x) \<le> x \<and> x < 2 powi (exponent x + 1)"
proof (cases "1 \<le> x")
  case True
  with pow2_bitlen_bounds [OF True] show ?thesis by (simp add: exponent_def)
next
  case False
  with assms have y: "1 \<le> 1 / x" by simp
  define k where "k = bitlen \<lfloor>1 / x\<rfloor> - 1"
  from pow2_bitlen_bounds [OF y] have lo: "2 powi k \<le> 1 / x" and hi: "1 / x < 2 powi (k + 1)"
    by (simp_all add: k_def)
  have pk: "0 < (2::real) powi k" "0 < (2::real) powi (k + 1)" by simp_all
  from lo assms pk have xle: "x * 2 powi k \<le> 1"
    by (simp add: field_simps)
  from hi assms pk have xgt: "1 < x * 2 powi (k + 1)"
    by (simp add: field_simps)
  show ?thesis
  proof (cases "x * 2 powi k = 1")
    case True
    then have e: "exponent x = - k"
      using False by (simp add: exponent_def k_def Let_def)
    from True pk have x: "x = 2 powi (- k)"
      by (simp add: power_int_minus field_simps)
    have lt: "(2::real) powi (- k) < 2 powi (- k + 1)"
      by (rule power_int_strict_increasing) simp_all
    have "2 powi (- k) \<le> x \<and> x < 2 powi (- k + 1)"
      unfolding x using lt by simp
    then show ?thesis by (simp only: e)
  next
    case ne: False
    then have e: "exponent x = - k - 1"
      using False by (simp add: exponent_def k_def Let_def)
    from ne xle have "x * 2 powi k < 1" by simp
    with pk have 1: "x < 2 powi (- k)"
      by (simp add: power_int_minus field_simps)
    have "(2::real) powi (- k - 1) = 1 / 2 powi (k + 1)"
      using power_int_minus_divide [of "2::real" "k + 1"] by simp
    moreover have "1 / 2 powi (k + 1) < x"
      using xgt by (simp only: pos_divide_less_eq [OF pk(2)])
    ultimately have 2: "2 powi (- k - 1) < x" by simp
    from 1 2 have "2 powi (- k - 1) \<le> x \<and> x < 2 powi (- k - 1 + 1)" by simp
    then show ?thesis by (simp only: e)
  qed
qed


lemma exponent_mono:
  assumes "0 < x" "x \<le> y"
  shows "exponent x \<le> exponent y"
proof (rule ccontr)
  assume "\<not> exponent x \<le> exponent y"
  then have "exponent y + 1 \<le> exponent x" by simp
  then have "(2::real) powi (exponent y + 1) \<le> 2 powi (exponent x)"
    by (intro power_int_increasing) simp_all
  also have "\<dots> \<le> x" using exponent_bounds [OF assms(1)] by simp
  also have "\<dots> \<le> y" by (rule assms(2))
  also have "\<dots> < 2 powi (exponent y + 1)"
    using exponent_bounds [of y] assms by simp
  finally show False by simp
qed

lemma ulp_pos [simp]: "0 < ulp x"
  by (simp add: ulp_def)

lemma ulp_nonneg [simp]: "0 \<le> ulp x"
  by (simp add: ulp_def)

lemma pow2_grid:
  "of_int (2 ^ n) * ulp x = 2 powi (max (exponent x) (- 1022) + (int n - 52))"
  by (simp add: ulp_def power_int_add power_int_diff mult.commute)

lemma round_positive_nonneg:
  assumes "0 < x"
  shows "0 \<le> round_positive x"
proof -
  from assms have "0 \<le> x / ulp x" by (intro divide_nonneg_nonneg) simp_all
  then have "0 \<le> \<lfloor>x / ulp x\<rfloor>" by simp
  then have "(0::real) \<le> of_int \<lfloor>x / ulp x\<rfloor>" by simp
  also have "\<dots> \<le> of_int (round_half_even (x / ulp x))"
    by (rule round_half_even_bounds)
  finally show ?thesis by (simp add: round_positive_def)
qed

lemma round_positive_upper:
  assumes "0 < x"
  shows "round_positive x \<le> 2 powi (max (exponent x) (- 1022) + 1)"
proof -
  let ?E = "max (exponent x) (- 1022)"
  have "x < 2 powi (exponent x + 1)" using exponent_bounds [OF assms] by simp
  also have "\<dots> \<le> 2 powi (?E + 1)"
    by (intro power_int_increasing) simp_all
  also have "\<dots> = of_int (2 ^ 53) * ulp x"
    using pow2_grid [of 53 x] by simp
  finally have "x / ulp x \<le> of_int (2 ^ 53)"
    by (simp add: pos_divide_le_eq)
  from round_half_even_mono [OF this]
  have "round_half_even (x / ulp x) \<le> 2 ^ 53"
    by (simp only: round_half_even_of_int)
  then have "(of_int (round_half_even (x / ulp x)) :: real) \<le> of_int (2 ^ 53)"
    by (simp only: of_int_le_iff)
  then have "round_positive x \<le> of_int (2 ^ 53) * ulp x"
    unfolding round_positive_def by (intro mult_right_mono) simp_all
  also have "\<dots> = 2 powi (?E + 1)"
    using pow2_grid [of 53 x] by simp
  finally show ?thesis .
qed

lemma round_positive_lower:
  assumes "0 < x" "- 1022 \<le> exponent x"
  shows "2 powi (exponent x) \<le> round_positive x"
proof -
  from assms(2) have E: "max (exponent x) (- 1022) = exponent x" by simp
  have grid: "of_int (2 ^ 52) * ulp x = 2 powi (exponent x)"
    using pow2_grid [of 52 x] by (simp add: E)
  then have "of_int (2 ^ 52) * ulp x = 2 powi (exponent x)" .
  also have "\<dots> \<le> x" using exponent_bounds [OF assms(1)] by simp
  finally have "of_int (2 ^ 52) \<le> x / ulp x"
    by (simp add: pos_le_divide_eq)
  from round_half_even_mono [OF this]
  have "2 ^ 52 \<le> round_half_even (x / ulp x)"
    by (simp only: round_half_even_of_int)
  then have "(of_int (2 ^ 52) :: real) \<le> of_int (round_half_even (x / ulp x))"
    by (simp only: of_int_le_iff)
  then have "of_int (2 ^ 52) * ulp x \<le> round_positive x"
    unfolding round_positive_def by (intro mult_right_mono) simp_all
  with grid show ?thesis by simp
qed

lemma round_positive_mono:
  assumes "0 < x" "x \<le> y"
  shows "round_positive x \<le> round_positive y"
proof -
  let ?Ex = "max (exponent x) (- 1022)" and ?Ey = "max (exponent y) (- 1022)"
  from assms have y: "0 < y" by simp
  from exponent_mono [OF assms] have le: "?Ex \<le> ?Ey" by simp
  show ?thesis
  proof (cases "?Ex = ?Ey")
    case True
    then have u: "ulp x = ulp y" by (simp add: ulp_def)
    from assms(2) have "x / ulp y \<le> y / ulp y"
      by (intro divide_right_mono) simp_all
    from round_half_even_mono [OF this]
    have "(of_int (round_half_even (x / ulp y)) :: real) \<le> of_int (round_half_even (y / ulp y))"
      by (simp only: of_int_le_iff)
    then show ?thesis
      unfolding round_positive_def u by (intro mult_right_mono) simp_all
  next
    case False
    with le have lt: "?Ex + 1 \<le> ?Ey" by simp
    then have ey: "?Ey = exponent y" "- 1022 \<le> exponent y" by simp_all
    have "round_positive x \<le> 2 powi (?Ex + 1)"
      by (rule round_positive_upper [OF assms(1)])
    also have "\<dots> \<le> 2 powi ?Ey"
      using lt by (intro power_int_increasing) simp_all
    also have "\<dots> = 2 powi (exponent y)" by (simp only: ey(1))
    also have "\<dots> \<le> round_positive y"
      by (rule round_positive_lower [OF y ey(2)])
    finally show ?thesis .
  qed
qed

lemma round_double_mono:
  assumes "x \<le> y"
  shows "round_double x \<le> round_double y"
proof -
  consider "0 < x" | "x = 0" | "x < 0" "y < 0" | "x < 0" "y = 0" | "x < 0" "0 < y"
    by linarith
  then show ?thesis
  proof cases
    case 1
    with assms round_positive_mono [OF 1 assms] show ?thesis
      by (simp add: round_double_def)
  next
    case 2
    with assms round_positive_nonneg [of y] show ?thesis
      by (auto simp: round_double_def)
  next
    case 3
    then have "0 < - y" "- y \<le> - x" using assms by simp_all
    from round_positive_mono [OF this] 3 show ?thesis
      by (simp add: round_double_def)
  next
    case 4
    with round_positive_nonneg [of "- x"] show ?thesis
      by (simp add: round_double_def)
  next
    case 5
    with round_positive_nonneg [of "- x"] round_positive_nonneg [of y] show ?thesis
      by (simp add: round_double_def)
  qed
qed

lemma round_double_0 [simp]: "round_double 0 = 0"
  by (simp add: round_double_def)

lemma round_double_1000 [simp]: "round_double 1000 = 1000"
  by code_simp

lemma round_double_2000 [simp]: "round_double 2000 = 2000"
  by code_simp

lemma float_of_int_0 [simp]: "float_of_int 0 = 0"
  by (simp add: float_of_int_def)

lemma float_of_int_nonneg: "0 \<le> p \<Longrightarrow> 0 \<le> float_of_int p"
  using round_double_mono [of 0 "real_of_int p"] by (simp add: float_of_int_def)

section \<open>Auxiliary facts\<close>

lemma filter_key_distinct:
  "distinct (map f xs) \<Longrightarrow> filter (\<lambda>x. f x = k) xs = [] \<or> (\<exists>x. filter (\<lambda>x. f x = k) xs = [x])"
proof (induction xs)
  case Nil
  then show ?case by simp
next
  case (Cons a xs)
  show ?case
  proof (cases "f a = k")
    case True
    from Cons.prems True have "k \<notin> f ` set xs" by simp
    then have "\<forall>x\<in>set xs. f x \<noteq> k" by blast
    then have "filter (\<lambda>x. f x = k) xs = []" by (simp add: filter_empty_conv)
    with True show ?thesis by simp
  next
    case False
    with Cons show ?thesis by simp
  qed
qed

lemma select_country_by_name_cases:
  assumes "case_insensitive_unique (countries s)"
  shows "select_country_by_name s n = [] \<or> (\<exists>c. select_country_by_name s n = [c])"
  using filter_key_distinct [of "\<lambda>c. lower (name c)" "countries s" "lower n"] assms
  by (simp add: select_country_by_name_def case_insensitive_unique_def)

lemma calculate_estimated_gdp_ticks [simp]:
  "ticks (snd (calculate_estimated_gdp e p r w)) = ticks w"
  by (simp add: calculate_estimated_gdp_def random_uniform_def split: option.splits)

lemma gdp_or_zero_not_None [simp]: "gdp_or_zero g \<noteq> None"
  by (simp add: gdp_or_zero_def split: option.splits)

lemma upsert_country_insert:
  assumes "select_country_by_name s (data_name d) = []"
  shows "\<exists>c w'. upsert_country e s d rates w
           = (Inr (c, s\<lparr>countries := countries s @ [c], next_id := Suc (next_id s)\<rparr>), w')
         \<and> country_id c = next_id s \<and> name c = data_name d
         \<and> capital c = data_capital d \<and> region c = data_region d
         \<and> population c = population_of d
         \<and> currency_code c = extract_currency_code (currencies_of d)
         \<and> exchange_rate c = lookup_exchange_rate rates (extract_currency_code (currencies_of d))
         \<and> estimated_gdp c = gdp_or_zero (fst (calculate_estimated_gdp e (population_of d)
               (lookup_exchange_rate rates (extract_currency_code (currencies_of d))) w))
         \<and> flag_url c = data_flag d \<and> last_refreshed_at c = clock e (ticks w)"
  using assms by (simp add: upsert_country_def Let_def split_beta now_def)

lemma upsert_country_update:
  assumes "select_country_by_name s (data_name d) = [x]"
  shows "\<exists>c w'. upsert_country e s d rates w
           = (Inr (c, s\<lparr>countries := map (\<lambda>r. if country_id r = country_id x then c else r)
                                       (countries s)\<rparr>), w')
         \<and> country_id c = country_id x \<and> name c = name x
         \<and> capital c = data_capital d \<and> region c = data_region d
         \<and> population c = population_of d
         \<and> currency_code c = extract_currency_code (currencies_of d)
         \<and> exchange_rate c = lookup_exchange_rate rates (extract_currency_code (currencies_of d))
         \<and> estimated_gdp c = gdp_or_zero (fst (calculate_estimated_gdp e (population_of d)
               (lookup_exchange_rate rates (extract_currency_code (currencies_of d))) w))
         \<and> flag_url c = data_flag d \<and> last_refreshed_at c = clock e (ticks w)"
  using assms by (simp add: upsert_country_def Let_def split_beta now_def)

lemma distinct_map_map:
  "distinct (map f (map g xs)) \<Longrightarrow> distinct (map g xs)"
  by (induction xs) auto

lemma case_insensitive_unique_name:
  assumes "case_insensitive_unique rows"
  shows "unique_name rows"
proof -
  have "map (\<lambda>c. lower (name c)) rows = map lower (map name rows)"
    by simp
  with assms have "distinct (map lower (map name rows))"
    by (simp only: case_insensitive_unique_def)
  then show ?thesis
    unfolding unique_name_def by (rule distinct_map_map)
qed

lemma primary_key_same_row:
  assumes "primary_key rows" "x \<in> set rows" "r \<in> set rows" "country_id r = country_id x"
  shows "r = x"
  using assms unfolding primary_key_def
  by (meson distinct_map inj_onD)

lemma replace_row_ids:
  assumes "country_id c = country_id x"
  shows "map country_id (map (\<lambda>r. if country_id r = country_id x then c else r) rows)
         = map country_id rows"
  using assms by (induction rows) auto

lemma replace_row_names:
  assumes "primary_key rows" "x \<in> set rows" "name c = name x"
  shows "map name (map (\<lambda>r. if country_id r = country_id x then c else r) rows) = map name rows"
proof -
  have "name (if country_id r = country_id x then c else r) = name r" if "r \<in> set rows" for r
    using primary_key_same_row [OF assms(1,2) that] assms(3) by auto
  then show ?thesis by simp
qed

lemma replace_row_select:
  assumes "primary_key rows" "x \<in> set rows" "name c = name x"
    and "filter (\<lambda>r. lower (name r) = k) rows = [x]"
  shows "filter (\<lambda>r. lower (name r) = k)
           (map (\<lambda>r. if country_id r = country_id x then c else r) rows) = [c]"
proof -
  let ?g = "\<lambda>r. if country_id r = country_id x then c else r"
  have same: "name (?g r) = name r" if "r \<in> set rows" for r
    using primary_key_same_row [OF assms(1,2) that] assms(3) by auto
  have "filter (\<lambda>r. lower (name r) = k) (map ?g rows)
        = map ?g (filter ((\<lambda>r. lower (name r) = k) \<circ> ?g) rows)"
    by (simp add: filter_map)
  also have "filter ((\<lambda>r. lower (name r) = k) \<circ> ?g) rows = filter (\<lambda>r. lower (name r) = k) rows"
    by (rule filter_cong) (use same in auto)
  also have "map ?g (filter (\<lambda>r. lower (name r) = k) rows) = [c]"
    by (simp add: assms(4))
  finally show ?thesis .
qed

lemma select_singleton_member:
  assumes "select_country_by_name s n = [x]"
  shows "x \<in> set (countries s) \<and> lower (name x) = lower n"
proof -
  have "x \<in> set (filter (\<lambda>c. lower (name c) = lower n) (countries s))"
    using assms by (simp add: select_country_by_name_def)
  then show ?thesis by simp
qed

lemma wf_upsert_country:
  assumes "well_formed s" and "upsert_country e s d rates w = (Inr (c, s'), w')"
  shows "well_formed s' \<and> select_country_by_name s' (data_name d) = [c] \<and> metadata s' = metadata s"
proof -
  from assms(1) have pk: "primary_key (countries s)"
    and bound: "list_all (\<lambda>c. country_id c < next_id s) (countries s)"
    and ci: "case_insensitive_unique (countries s)"
    and mpk: "metadata_primary_key (metadata s)"
    by (simp_all add: well_formed_def)
  from select_country_by_name_cases [OF ci, of "data_name d"]
  show ?thesis
  proof
    assume new: "select_country_by_name s (data_name d) = []"
    from upsert_country_insert [OF new, of e rates w] assms(2)
    have s': "s' = s\<lparr>countries := countries s @ [c], next_id := Suc (next_id s)\<rparr>"
      and c: "country_id c = next_id s" "name c = data_name d"
      by auto
    from new have fresh: "\<forall>r\<in>set (countries s). lower (name r) \<noteq> lower (data_name d)"
      by (simp add: select_country_by_name_def filter_empty_conv)
    have "primary_key (countries s')"
      using pk bound c(1) by (auto simp: s' primary_key_def list_all_iff)
    moreover have "list_all (\<lambda>c. country_id c < next_id s') (countries s')"
      using bound c(1) by (auto simp: s' list_all_iff)
    moreover have "case_insensitive_unique (countries s')"
      using ci fresh c(2) by (auto simp: s' case_insensitive_unique_def)
    moreover have "select_country_by_name s' (data_name d) = [c]"
      using new c(2) by (simp add: s' select_country_by_name_def)
    ultimately show ?thesis using mpk by (simp add: well_formed_def s')
  next
    assume "\<exists>x. select_country_by_name s (data_name d) = [x]"
    then obtain x where old: "select_country_by_name s (data_name d) = [x]" ..
    from upsert_country_update [OF old, of e rates w] assms(2)
    have s': "s' = s\<lparr>countries := map (\<lambda>r. if country_id r = country_id x then c else r)
                                     (countries s)\<rparr>"
      and c: "country_id c = country_id x" "name c = name x"
      by auto
    from select_singleton_member [OF old] have x: "x \<in> set (countries s)" by simp
    have ids: "map country_id (countries s') = map country_id (countries s)"
      by (simp add: s' replace_row_ids [OF c(1)] del: map_map)
    have names: "map name (countries s') = map name (countries s)"
      by (simp add: s' replace_row_names [OF pk x c(2)] del: map_map)
    have "primary_key (countries s')"
      using pk ids by (simp add: primary_key_def)
    moreover have "list_all (\<lambda>c. country_id c < next_id s') (countries s')"
      using bound c(1) by (auto simp: s' list_all_iff)
    moreover have "case_insensitive_unique (countries s')"
    proof -
      have "map (\<lambda>c. lower (name c)) (countries s') = map lower (map name (countries s'))"
        by (simp add: comp_def)
      also have "\<dots> = map (\<lambda>c. lower (name c)) (countries s)"
        by (simp only: names) (simp add: comp_def)
      finally show ?thesis using ci by (simp add: case_insensitive_unique_def)
    qed
    moreover have "select_country_by_name s' (data_name d) = [c]"
      using replace_row_select [OF pk x c(2), of "lower (data_name d)"] old
      by (simp add: s' select_country_by_name_def)
    ultimately show ?thesis using mpk by (simp add: well_formed_def s')
  qed
qed

lemma upsert_country_succeeds:
  assumes "case_insensitive_unique (countries s)"
  shows "\<exists>c s' w'. upsert_country e s d rates w = (Inr (c, s'), w')"
  using select_country_by_name_cases [OF assms, of "data_name d"]
proof
  assume "select_country_by_name s (data_name d) = []"
  from upsert_country_insert [OF this, of e rates w] show ?thesis by blast
next
  assume "\<exists>x. select_country_by_name s (data_name d) = [x]"
  then obtain x where "select_country_by_name s (data_name d) = [x]" ..
  from upsert_country_update [OF this, of e rates w] show ?thesis by blast
qed

lemma wf_upsert_all:
  assumes "well_formed s"
  shows "\<exists>s' w'. upsert_all e rates ds s w = (Inr s', w') \<and> well_formed s' \<and> metadata s' = metadata s"
  using assms
proof (induction ds arbitrary: s w)
  case Nil
  then show ?case by simp
next
  case (Cons d ds)
  from Cons.prems have "case_insensitive_unique (countries s)" by (simp add: well_formed_def)
  from upsert_country_succeeds [OF this, of e d rates w]
  obtain c s1 w1 where up: "upsert_country e s d rates w = (Inr (c, s1), w1)" by blast
  from wf_upsert_country [OF Cons.prems up] have s1: "well_formed s1" "metadata s1 = metadata s"
    by simp_all
  from Cons.IH [OF s1(1), of w1] s1(2) up show ?case by simp
qed


lemma commit_wf:
  assumes "primary_key (countries s)" "case_insensitive_unique (countries s)"
    "metadata_primary_key (metadata s)"
  shows "commit s = Inr s"
  using assms case_insensitive_unique_name by (simp add: commit_def)

lemma distinct_map_filter_keep:
  "distinct (map f xs) \<Longrightarrow> distinct (map f (filter P xs))"
  by (induction xs) auto

lemma delete_row_by_key:
  assumes "primary_key rows" "case_insensitive_unique rows"
    and "filter (\<lambda>r. lower (name r) = k) rows = [x]"
  shows "filter (\<lambda>r. country_id r \<noteq> country_id x) rows
         = filter (\<lambda>r. lower (name r) \<noteq> k) rows"
proof (rule filter_cong [OF refl])
  fix r assume r: "r \<in> set rows"
  have x: "x \<in> set rows" "lower (name x) = k"
  proof -
    have "x \<in> set (filter (\<lambda>r. lower (name r) = k) rows)" by (simp add: assms(3))
    then show "x \<in> set rows" "lower (name x) = k" by simp_all
  qed
  show "(country_id r \<noteq> country_id x) = (lower (name r) \<noteq> k)"
  proof
    assume ne: "country_id r \<noteq> country_id x"
    show "lower (name r) \<noteq> k"
    proof
      assume "lower (name r) = k"
      with r have "r \<in> set (filter (\<lambda>r. lower (name r) = k) rows)" by simp
      then have "r = x" by (simp add: assms(3))
      with ne show False by simp
    qed
  next
    assume ne: "lower (name r) \<noteq> k"
    show "country_id r \<noteq> country_id x"
    proof
      assume "country_id r = country_id x"
      from primary_key_same_row [OF assms(1) x(1) r this] have "r = x" .
      with ne x(2) show False by simp
    qed
  qed
qed

lemma filter_distinct_remove1:
  assumes "distinct (map f xs)" "x \<in> set xs"
  shows "filter (\<lambda>r. f r \<noteq> f x) xs = remove1 x xs"
  using assms
proof (induction xs)
  case Nil
  then show ?case by simp
next
  case (Cons a xs)
  show ?case
  proof (cases "a = x")
    case True
    with Cons.prems have "f x \<notin> f ` set xs" by simp
    then have "\<forall>r\<in>set xs. f r \<noteq> f x" by (metis image_eqI)
    then have "filter (\<lambda>r. f r \<noteq> f x) xs = xs" by (simp add: filter_id_conv)
    with True show ?thesis by simp
  next
    case False
    with Cons.prems have "x \<in> set xs" "f a \<noteq> f x" by auto
    with Cons False show ?thesis by simp
  qed
qed

lemma upsert_country_metadata:
  assumes "upsert_country e s d rates w = (Inr (c, s'), w')"
  shows "metadata s' = metadata s"
  using assms
  by (auto simp: upsert_country_def Let_def split_beta now_def
           split: sum.splits option.splits)

lemma upsert_all_metadata:
  assumes "upsert_all e rates ds s w = (Inr s', w')"
  shows "metadata s' = metadata s"
  using assms
proof (induction ds arbitrary: s w)
  case Nil
  then show ?case by simp
next
  case (Cons d ds)
  from Cons.prems obtain c s1 w1 where up: "upsert_country e s d rates w = (Inr (c, s1), w1)"
    and rest: "upsert_all e rates ds s1 w1 = (Inr s', w')"
    by (auto split: prod.splits sum.splits)
  from Cons.IH [OF rest] upsert_country_metadata [OF up] show ?case by simp
qed

lemma replace_metadata_select:
  assumes "filter (\<lambda>r. metadata_id r = k) rows = [m]" and "metadata_id m' = k"
  shows "filter (\<lambda>r. metadata_id r = k)
           (map (\<lambda>r. if metadata_id r = metadata_id m then m' else r) rows) = [m']
         \<and> map metadata_id (map (\<lambda>r. if metadata_id r = metadata_id m then m' else r) rows)
           = map metadata_id rows"
proof -
  let ?g = "\<lambda>r. if metadata_id r = metadata_id m then m' else r"
  have "m \<in> set (filter (\<lambda>r. metadata_id r = k) rows)" by (simp add: assms(1))
  then have m: "metadata_id m = k" by simp
  have same: "metadata_id (?g r) = metadata_id r" for r
    using m assms(2) by simp
  have "filter (\<lambda>r. metadata_id r = k) (map ?g rows)
        = map ?g (filter ((\<lambda>r. metadata_id r = k) \<circ> ?g) rows)"
    by (simp add: filter_map)
  also have "filter ((\<lambda>r. metadata_id r = k) \<circ> ?g) rows = filter (\<lambda>r. metadata_id r = k) rows"
    by (rule filter_cong) (use same in auto)
  also have "map ?g (filter (\<lambda>r. metadata_id r = k) rows) = [m']"
    using m by (simp add: assms(1))
  finally have "filter (\<lambda>r. metadata_id r = k) (map ?g rows) = [m']" .
  moreover have "map metadata_id (map ?g rows) = map metadata_id rows"
    using same by simp
  ultimately show ?thesis by simp
qed

lemma update_app_metadata_result:
  assumes "update_app_metadata s t = Inr s'"
  shows "countries s' = countries s \<and> next_id s' = next_id s
         \<and> filter (\<lambda>m. metadata_id m = 1) (metadata s')
             = [\<lparr>metadata_id = 1, metadata_last_refreshed_at = Some t\<rparr>]
         \<and> (filter (\<lambda>m. metadata_id m = 1) (metadata s) = []
              \<longrightarrow> metadata s' = metadata s
                     @ [\<lparr>metadata_id = 1, metadata_last_refreshed_at = Some t\<rparr>])
         \<and> (filter (\<lambda>m. metadata_id m = 1) (metadata s) \<noteq> []
              \<longrightarrow> map metadata_id (metadata s') = map metadata_id (metadata s))"
proof (cases "filter (\<lambda>m. metadata_id m = 1) (metadata s)")
  case Nil
  with assms have "s' = s\<lparr>metadata := metadata s
       @ [\<lparr>metadata_id = 1, metadata_last_refreshed_at = Some t\<rparr>]\<rparr>"
    by (simp add: update_app_metadata_def)
  with Nil show ?thesis by simp
next
  case (Cons m ms)
  with assms have ms: "ms = []"
    by (cases ms) (simp_all add: update_app_metadata_def)
  let ?m' = "m\<lparr>metadata_last_refreshed_at := Some t\<rparr>"
  from Cons ms have sel: "filter (\<lambda>m. metadata_id m = 1) (metadata s) = [m]" by simp
  then have "m \<in> set (filter (\<lambda>m. metadata_id m = 1) (metadata s))" by simp
  then have m1: "metadata_id m = 1" by simp
  then have m': "?m' = \<lparr>metadata_id = 1, metadata_last_refreshed_at = Some t\<rparr>"
    by (cases m) simp
  from assms sel have s': "s' = s\<lparr>metadata :=
      map (\<lambda>r. if metadata_id r = metadata_id m then ?m' else r) (metadata s)\<rparr>"
    by (simp add: update_app_metadata_def)
  from replace_metadata_select [OF sel, of ?m'] m1
  show ?thesis unfolding s' using sel m' by simp
qed

lemma update_app_metadata_wf:
  assumes "well_formed s"
  shows "\<exists>s'. update_app_metadata s t = Inr s' \<and> well_formed s'"
proof -
  from assms have mpk: "distinct (map metadata_id (metadata s))"
    by (simp add: well_formed_def metadata_primary_key_def)
  from filter_key_distinct [OF mpk, of 1]
  obtain s' where up: "update_app_metadata s t = Inr s'"
    by (auto simp: update_app_metadata_def)
  from update_app_metadata_result [OF up]
  have same: "countries s' = countries s" "next_id s' = next_id s"
    and new: "filter (\<lambda>m. metadata_id m = 1) (metadata s) = []
              \<longrightarrow> metadata s' = metadata s
                     @ [\<lparr>metadata_id = 1, metadata_last_refreshed_at = Some t\<rparr>]"
    and old: "filter (\<lambda>m. metadata_id m = 1) (metadata s) \<noteq> []
              \<longrightarrow> map metadata_id (metadata s') = map metadata_id (metadata s)"
    by simp_all
  have "distinct (map metadata_id (metadata s'))"
  proof (cases "filter (\<lambda>m. metadata_id m = 1) (metadata s) = []")
    case True
    then have "\<forall>m\<in>set (metadata s). metadata_id m \<noteq> 1"
      by (simp add: filter_empty_conv)
    with new True mpk show ?thesis by auto
  next
    case False
    with old mpk show ?thesis by simp
  qed
  with assms same up show ?thesis
    by (auto simp: well_formed_def metadata_primary_key_def)
qed

lemma commit_result:
  assumes "commit s = Inr db'"
  shows "db' = s"
  using assms by (simp add: commit_def split: if_splits)

lemma commit_of_wf:
  assumes "well_formed s"
  shows "commit s = Inr s"
  using assms by (intro commit_wf) (simp_all add: well_formed_def)

lemma refresh_all_countries_stages:
  assumes "fetch_countries_data e = Inr L" and "fetch_exchange_rate e = Inr rates"
    and "upsert_all e rates L db w = (Inr s1, w1)"
    and "update_app_metadata s1 (clock e (ticks w1)) = Inr s2"
    and "commit s2 = Inr db2"
  shows "refresh_all_countries e db w
         = (Inr (length L, clock e (ticks w1)), db2,
            (case image_failure e (length L) (take 5 (get_top_countries_by_gdp db2 5))
                    (clock e (ticks w1)) of
               None \<Rightarrow> w1\<lparr>ticks := Suc (ticks w1)\<rparr>
             | Some x \<Rightarrow> print (''Warning: Failed to generate image: '' @ str x)
                           (w1\<lparr>ticks := Suc (ticks w1)\<rparr>)))"
  using assms
  by (simp add: refresh_all_countries_def now_def generate_summary_image_def
           split: option.splits)

lemma refresh_all_countries_success:
  assumes "refresh_all_countries e db w = (Inr (cnt, t), db', w')"
  shows "\<exists>L rates s1 w1. fetch_countries_data e = Inr L \<and> fetch_exchange_rate e = Inr rates
           \<and> upsert_all e rates L db w = (Inr s1, w1)
           \<and> update_app_metadata s1 t = Inr db' \<and> commit db' = Inr db'
           \<and> cnt = length L \<and> t = clock e (ticks w1) \<and> ticks w' = Suc (ticks w1)"
proof -
  from assms obtain L where L: "fetch_countries_data e = Inr L"
    by (cases "fetch_countries_data e") (simp_all add: refresh_all_countries_def)
  from assms L obtain rates where rates: "fetch_exchange_rate e = Inr rates"
    by (cases "fetch_exchange_rate e") (simp_all add: refresh_all_countries_def)
  obtain r1 w1 where u: "upsert_all e rates L db w = (r1, w1)"
    by (cases "upsert_all e rates L db w")
  from assms L rates u obtain s1 where s1: "r1 = Inr s1"
    by (cases r1) (simp_all add: refresh_all_countries_def)
  from assms L rates u s1 obtain s2 where s2: "update_app_metadata s1 (clock e (ticks w1)) = Inr s2"
    by (cases "update_app_metadata s1 (clock e (ticks w1))")
       (simp_all add: refresh_all_countries_def now_def)
  from assms L rates u s1 s2 obtain db2 where db2: "commit s2 = Inr db2"
    by (cases "commit s2") (simp_all add: refresh_all_countries_def now_def)
  from refresh_all_countries_stages [OF L rates u [unfolded s1] s2 db2] assms
  have res: "cnt = length L" "t = clock e (ticks w1)" "db' = db2"
    and w': "w' = (case image_failure e (length L) (take 5 (get_top_countries_by_gdp db2 5))
                    (clock e (ticks w1)) of
               None \<Rightarrow> w1\<lparr>ticks := Suc (ticks w1)\<rparr>
             | Some x \<Rightarrow> print (''Warning: Failed to generate image: '' @ str x)
                           (w1\<lparr>ticks := Suc (ticks w1)\<rparr>))"
    by simp_all
  from w' have "ticks w' = Suc (ticks w1)"
    by (simp add: print_def split: option.splits)
  moreover from commit_result [OF db2] res have "db' = s2" by simp
  ultimately show ?thesis
    using L rates u s1 s2 db2 res by auto
qed

lemma refresh_all_countries_returns:
  assumes "well_formed db" and "fetch_countries_data e = Inr L"
    and "fetch_exchange_rate e = Inr rates"
  shows "\<exists>t db' w'. refresh_all_countries e db w = (Inr (length L, t), db', w')"
proof -
  from wf_upsert_all [OF assms(1), of e rates L w]
  obtain s1 w1 where up: "upsert_all e rates L db w = (Inr s1, w1)" and s1: "well_formed s1"
    by blast
  from update_app_metadata_wf [OF s1, of "clock e (ticks w1)"]
  obtain s2 where meta: "update_app_metadata s1 (clock e (ticks w1)) = Inr s2"
    and s2: "well_formed s2"
    by blast
  from refresh_all_countries_stages [OF assms(2,3) up meta commit_of_wf [OF s2]]
  show ?thesis by simp
qed

lemma fetch_countries_data_image [simp]:
  "fetch_countries_data (e\<lparr>image_failure := f\<rparr>) = fetch_countries_data e"
  by (simp add: fetch_countries_data_def)

lemma fetch_exchange_rate_image [simp]:
  "fetch_exchange_rate (e\<lparr>image_failure := f\<rparr>) = fetch_exchange_rate e"
  by (simp add: fetch_exchange_rate_def)

lemma random_uniform_image [simp]:
  "random_uniform (e\<lparr>image_failure := f\<rparr>) a b w = random_uniform e a b w"
  by (simp add: random_uniform_def)

lemma calculate_estimated_gdp_image [simp]:
  "calculate_estimated_gdp (e\<lparr>image_failure := f\<rparr>) p r w = calculate_estimated_gdp e p r w"
  by (cases r) (simp_all add: calculate_estimated_gdp_def)

lemma now_image [simp]: "now (e\<lparr>image_failure := f\<rparr>) w = now e w"
  by (simp add: now_def)

lemma upsert_country_image [simp]:
  "upsert_country (e\<lparr>image_failure := f\<rparr>) s d rates w = upsert_country e s d rates w"
  by (simp add: upsert_country_def Let_def split_beta split: sum.splits option.splits)

lemma upsert_all_image [simp]:
  "upsert_all (e\<lparr>image_failure := f\<rparr>) rates ds s w = upsert_all e rates ds s w"
  by (induction ds arbitrary: s w) (simp_all split: prod.splits sum.splits)

lemma wf_empty_db: "well_formed empty_db"
  by (simp add: well_formed_def empty_db_def primary_key_def case_insensitive_unique_def
      metadata_primary_key_def)

lemma wf_refresh_all_countries:
  assumes "well_formed db" and "refresh_all_countries e db w = (r, db', w')"
  shows "well_formed db'"
proof (cases r)
  case (Inl x)
  have "fst (snd (refresh_all_countries e db w)) = db"
    if "fst (refresh_all_countries e db w) = Inl x"
    using that
    by (auto simp: refresh_all_countries_def Let_def split_beta
             split: sum.splits prod.splits)
  with assms Inl show ?thesis by simp
next
  case (Inr res)
  obtain cnt t where "res = (cnt, t)" by (cases res)
  with assms(2) Inr have run: "refresh_all_countries e db w = (Inr (cnt, t), db', w')" by simp
  from refresh_all_countries_success [OF run]
  obtain L rates s1 w1 where up: "upsert_all e rates L db w = (Inr s1, w1)"
    and meta: "update_app_metadata s1 t = Inr db'"
    by blast
  from wf_upsert_all [OF assms(1), of e rates L w] up have "well_formed s1" by simp
  from update_app_metadata_wf [OF this, of t] meta show ?thesis by simp
qed

lemma wf_delete_country_by_name:
  assumes "well_formed db" and "delete_country_by_name db n = (b, db')"
  shows "well_formed db'"
proof -
  have "db' = db
      \<or> (\<exists>c::country. db' = db\<lparr>countries :=
                 filter (\<lambda>r. country_id r \<noteq> country_id c) (countries db)\<rparr>)"
  proof (cases "get_country_by_name db n")
    case (Inl x)
    with assms(2) show ?thesis by (simp add: delete_country_by_name_def)
  next
    case (Inr found)
    show ?thesis
    proof (cases found)
      case None
      with Inr assms(2) show ?thesis by (simp add: delete_country_by_name_def)
    next
      case (Some c)
      let ?s = "db\<lparr>countries := filter (\<lambda>r. country_id r \<noteq> country_id c) (countries db)\<rparr>"
      show ?thesis
      proof (cases "commit ?s")
        case (Inl x)
        with Inr Some assms(2) show ?thesis by (simp add: delete_country_by_name_def)
      next
        case committed: (Inr s')
        from commit_result [OF committed] have "s' = ?s" .
        with Inr Some committed assms(2) have "db' = ?s"
          by (simp add: delete_country_by_name_def)
        then show ?thesis by blast
      qed
    qed
  qed
  then show ?thesis
  proof
    assume "db' = db"
    with assms(1) show ?thesis by simp
  next
    assume "\<exists>c::country. db' = db\<lparr>countries :=
                 filter (\<lambda>r. country_id r \<noteq> country_id c) (countries db)\<rparr>"
    then obtain c :: country where db': "db' = db\<lparr>countries :=
                 filter (\<lambda>r. country_id r \<noteq> country_id c) (countries db)\<rparr>" ..
    let ?rows = "filter (\<lambda>r. country_id r \<noteq> country_id c) (countries db)"
    from assms(1) have pk: "primary_key (countries db)"
      and bound: "list_all (\<lambda>c. country_id c < next_id db) (countries db)"
      and ci: "case_insensitive_unique (countries db)"
      and mpk: "metadata_primary_key (metadata db)"
      by (simp_all add: well_formed_def)
    have "primary_key ?rows"
      using pk unfolding primary_key_def by (rule distinct_map_filter_keep)
    moreover have "case_insensitive_unique ?rows"
      using ci unfolding case_insensitive_unique_def by (rule distinct_map_filter_keep)
    moreover have "list_all (\<lambda>c. country_id c < next_id db) ?rows"
      using bound by (simp add: list_all_iff)
    ultimately show ?thesis using mpk by (simp add: well_formed_def db')
  qed
qed

lemma reachable_wf: "reachable db \<Longrightarrow> well_formed db"
proof (induction rule: reachable.induct)
  case initial
  show ?case by (rule wf_empty_db)
next
  case (refresh db e w r db' w')
  then show ?case by (blast intro: wf_refresh_all_countries)
next
  case (delete db n b db')
  then show ?case by (blast intro: wf_delete_country_by_name)
qed

lemma mset_order_by_asc [simp]: "mset (order_by_asc key rows) = mset rows"
  by (simp add: order_by_asc_def)

lemma mset_order_by_desc [simp]: "mset (order_by_desc key rows) = mset rows"
  by (simp add: order_by_desc_def)


lemma float_of_int_1000 [simp]: "float_of_int 1000 = 1000"
  by (simp add: float_of_int_def)

lemma random_uniform_value:
  "fst (random_uniform e 1000 2000 w)
   = round_double (1000 + round_double (1000 * random_draw e (draws w)))"
  by (simp add: random_uniform_def)

lemma random_uniform_range:
  assumes "0 \<le> random_draw e (draws w)" "random_draw e (draws w) < 1"
  shows "1000 \<le> fst (random_uniform e 1000 2000 w) \<and> fst (random_uniform e 1000 2000 w) \<le> 2000"
proof -
  let ?y = "round_double (1000 * random_draw e (draws w))"
  have "round_double 0 \<le> ?y"
    using assms(1) by (intro round_double_mono) simp
  moreover have "?y \<le> round_double 1000"
    using assms(2) by (intro round_double_mono) simp
  ultimately have y: "0 \<le> ?y" "?y \<le> 1000" by simp_all
  have "round_double 1000 \<le> round_double (1000 + ?y)"
    using y(1) by (intro round_double_mono) simp
  moreover have "round_double (1000 + ?y) \<le> round_double 2000"
    using y(2) by (intro round_double_mono) simp
  ultimately show ?thesis by (simp add: random_uniform_value)
qed

lemma gdp_formula_zero [simp]: "gdp_formula 0 m r = 0"
  by (simp add: gdp_formula_def)

lemma gdp_formula_mono:
  assumes "0 \<le> p" "m \<le> m'" "0 < r"
  shows "gdp_formula p m r \<le> gdp_formula p m' r"
proof -
  have "float_of_int p * m \<le> float_of_int p * m'"
    using float_of_int_nonneg [OF assms(1)] assms(2) by (rule mult_left_mono [rotated])
  then have "round_double (float_of_int p * m) \<le> round_double (float_of_int p * m')"
    by (rule round_double_mono)
  then have "round_double (float_of_int p * m) / r \<le> round_double (float_of_int p * m') / r"
    using assms(3) by (intro divide_right_mono) simp_all
  then show ?thesis
    unfolding gdp_formula_def by (rule round_double_mono)
qed

lemma gdp_formula_antimono:
  assumes "0 \<le> p" "m \<le> m'" "r < 0"
  shows "gdp_formula p m' r \<le> gdp_formula p m r"
proof -
  have "float_of_int p * m \<le> float_of_int p * m'"
    using float_of_int_nonneg [OF assms(1)] assms(2) by (rule mult_left_mono [rotated])
  then have "round_double (float_of_int p * m) \<le> round_double (float_of_int p * m')"
    by (rule round_double_mono)
  then have "round_double (float_of_int p * m') / r \<le> round_double (float_of_int p * m) / r"
    using assms(3) by (intro divide_right_mono_neg) simp_all
  then show ?thesis
    unfolding gdp_formula_def by (rule round_double_mono)
qed

lemma example_run:
  "refresh_all_countries example_env empty_db world0
   = (Inr (2, 102), refreshed_db, world_after_refresh)"
  by code_simp

section \<open>The refresh cycle on a failing source\<close>

text \<open>
  Claim C1.  When \<^verbatim>\<open>fetch_countries_data\<close> or \<^verbatim>\<open>fetch_exchange_rate\<close> raises,
  \<^verbatim>\<open>refresh_all_countries\<close> raises too, before any upsert and before the metadata
  write: the persisted countries and metadata, and the clock, random generator and output,
  are as they were before the cycle.
\<close>

theorem refresh_all_countries_fetch_failure:
  assumes "(\<exists>x. fetch_countries_data e = Inl x) \<or> (\<exists>x. fetch_exchange_rate e = Inl x)"
  shows "\<exists>x. refresh_all_countries e db w = (Inl x, db, w)"
proof (cases "fetch_countries_data e")
  case (Inl x)
  then show ?thesis by (simp add: refresh_all_countries_def)
next
  case (Inr L)
  with assms obtain x where "fetch_exchange_rate e = Inl x" by auto
  with Inr show ?thesis by (simp add: refresh_all_countries_def)
qed

theorem refresh_all_countries_fetch_failure_witness:
  "fetch_countries_data rates_down_env = Inr [nigeria_data, nigeria_upper_data]
   \<and> fetch_exchange_rate rates_down_env = Inl (Exception ''Timeout while fetching exchange rate'')
   \<and> refresh_all_countries rates_down_env one_country_db world0
       = (Inl (Exception ''Timeout while fetching exchange rate''), one_country_db, world0)"
proof -
  have c: "fetch_countries_data rates_down_env = Inr [nigeria_data, nigeria_upper_data]"
    by (simp add: fetch_countries_data_def rates_down_env_def example_env_def)
  have r: "fetch_exchange_rate rates_down_env
           = Inl (Exception ''Timeout while fetching exchange rate'')"
    by (simp add: fetch_exchange_rate_def rates_down_env_def example_env_def)
  then have "(\<exists>x. fetch_countries_data rates_down_env = Inl x)
             \<or> (\<exists>x. fetch_exchange_rate rates_down_env = Inl x)"
    by blast
  from refresh_all_countries_fetch_failure [OF this, of one_country_db world0]
  obtain x where x: "refresh_all_countries rates_down_env one_country_db world0
                     = (Inl x, one_country_db, world0)" ..
  have "fst (refresh_all_countries rates_down_env one_country_db world0)
        = Inl (Exception ''Timeout while fetching exchange rate'')"
    by (simp add: refresh_all_countries_def c r)
  with x have "x = Exception ''Timeout while fetching exchange rate''" by simp
  with x c r show ?thesis by simp
qed

section \<open>The upsert engine\<close>

text \<open>
  Claim C2.  On a well-formed session, two upserts in a row whose names are equal up to case
  both return normally; afterwards exactly one row has that name up to case, it is the row
  the second upsert returned, and its capital, region, population, currency code, exchange
  rate, estimated GDP, flag and refresh time are the ones derived from the second record
  (with the rates, the draw and the clock reading of the second upsert).
\<close>

theorem upsert_country_twice:
  assumes "well_formed s" and "lower (data_name d1) = lower (data_name d2)"
  shows "\<exists>c1 s1 w1 c2 s2 w2.
           upsert_country e s d1 rates1 w = (Inr (c1, s1), w1)
         \<and> upsert_country e s1 d2 rates2 w1 = (Inr (c2, s2), w2)
         \<and> filter (\<lambda>c. lower (name c) = lower (data_name d2)) (countries s2) = [c2]
         \<and> capital c2 = data_capital d2
         \<and> region c2 = data_region d2
         \<and> population c2 = population_of d2
         \<and> currency_code c2 = extract_currency_code (currencies_of d2)
         \<and> exchange_rate c2 = lookup_exchange_rate rates2 (extract_currency_code (currencies_of d2))
         \<and> estimated_gdp c2 = gdp_or_zero (fst (calculate_estimated_gdp e (population_of d2)
               (lookup_exchange_rate rates2 (extract_currency_code (currencies_of d2))) w1))
         \<and> flag_url c2 = data_flag d2
         \<and> last_refreshed_at c2 = clock e (ticks w1)"
proof -
  from assms(1) have "case_insensitive_unique (countries s)" by (simp add: well_formed_def)
  from upsert_country_succeeds [OF this, of e d1 rates1 w]
  obtain c1 s1 w1 where up1: "upsert_country e s d1 rates1 w = (Inr (c1, s1), w1)" by blast
  from wf_upsert_country [OF assms(1) up1]
  have s1: "well_formed s1" "select_country_by_name s1 (data_name d1) = [c1]" by simp_all
  from s1(2) assms(2) have old: "select_country_by_name s1 (data_name d2) = [c1]"
    by (simp add: select_country_by_name_def)
  from upsert_country_update [OF old, of e rates2 w1]
  obtain c2 w2 where up2: "upsert_country e s1 d2 rates2 w1
           = (Inr (c2, s1\<lparr>countries := map (\<lambda>r. if country_id r = country_id c1 then c2 else r)
                                       (countries s1)\<rparr>), w2)"
    and c2: "capital c2 = data_capital d2" "region c2 = data_region d2"
       "population c2 = population_of d2"
       "currency_code c2 = extract_currency_code (currencies_of d2)"
       "exchange_rate c2 = lookup_exchange_rate rates2 (extract_currency_code (currencies_of d2))"
       "estimated_gdp c2 = gdp_or_zero (fst (calculate_estimated_gdp e (population_of d2)
               (lookup_exchange_rate rates2 (extract_currency_code (currencies_of d2))) w1))"
       "flag_url c2 = data_flag d2" "last_refreshed_at c2 = clock e (ticks w1)"
    by blast
  define s2 where "s2 = s1\<lparr>countries :=
     map (\<lambda>r. if country_id r = country_id c1 then c2 else r) (countries s1)\<rparr>"
  have up2': "upsert_country e s1 d2 rates2 w1 = (Inr (c2, s2), w2)"
    by (simp add: up2 s2_def)
  from wf_upsert_country [OF s1(1) up2']
  have "filter (\<lambda>c. lower (name c) = lower (data_name d2)) (countries s2) = [c2]"
    by (simp add: select_country_by_name_def)
  with up1 up2' c2 show ?thesis
    by (intro exI [where x = c1] exI [where x = s1] exI [where x = w1]
              exI [where x = c2] exI [where x = s2] exI [where x = w2]) simp
qed

theorem upsert_country_twice_witness:
  "well_formed empty_db \<and> lower (data_name nigeria_data) = lower (data_name nigeria_upper_data)
   \<and> (\<exists>c1 s1 w1 c2 s2 w2.
         upsert_country example_env empty_db nigeria_data example_rates world0 = (Inr (c1, s1), w1)
       \<and> upsert_country example_env s1 nigeria_upper_data example_rates w1 = (Inr (c2, s2), w2)
       \<and> filter (\<lambda>c. lower (name c) = lower (data_name nigeria_upper_data)) (countries s2) = [c2]
       \<and> capital c2 = Some ''Lagos'' \<and> population c2 = 5 \<and> estimated_gdp c2 = Some 0)
   \<and> upsert_all example_env example_rates [nigeria_data, nigeria_upper_data] empty_db world0
       = (Inr refreshed_session, world_after_upserts)
   \<and> countries refreshed_session = [refreshed_row]"
proof -
  have all: "upsert_all example_env example_rates [nigeria_data, nigeria_upper_data] empty_db world0
       = (Inr refreshed_session, world_after_upserts)"
    by code_simp
  have rows: "countries refreshed_session = [refreshed_row]"
    by (simp add: refreshed_session_def)
  have h1: "well_formed empty_db" by code_simp
  have h2: "lower (data_name nigeria_data) = lower (data_name nigeria_upper_data)" by code_simp
  have d: "data_capital nigeria_upper_data = Some ''Lagos''"
    "population_of nigeria_upper_data = 5"
    by (simp_all add: nigeria_upper_data_def population_of_def)
  have g: "gdp_or_zero (fst (calculate_estimated_gdp example_env 5
               (lookup_exchange_rate example_rates
                  (extract_currency_code (currencies_of nigeria_upper_data))) w1)) = Some 0" for w1
    by (simp add: nigeria_upper_data_def currencies_of_def lookup_exchange_rate_def
        calculate_estimated_gdp_def gdp_or_zero_def)
  from upsert_country_twice [OF h1 h2, of example_env example_rates world0 example_rates]
  obtain c1 s1 w1 c2 s2 w2 where
    "upsert_country example_env empty_db nigeria_data example_rates world0 = (Inr (c1, s1), w1)"
    "upsert_country example_env s1 nigeria_upper_data example_rates w1 = (Inr (c2, s2), w2)"
    "filter (\<lambda>c. lower (name c) = lower (data_name nigeria_upper_data)) (countries s2) = [c2]"
    "capital c2 = data_capital nigeria_upper_data"
    "population c2 = population_of nigeria_upper_data"
    "estimated_gdp c2 = gdp_or_zero (fst (calculate_estimated_gdp example_env
        (population_of nigeria_upper_data)
        (lookup_exchange_rate example_rates
           (extract_currency_code (currencies_of nigeria_upper_data))) w1))"
    by (elim exE conjE)
  then have "upsert_country example_env empty_db nigeria_data example_rates world0 = (Inr (c1, s1), w1)
       \<and> upsert_country example_env s1 nigeria_upper_data example_rates w1 = (Inr (c2, s2), w2)
       \<and> filter (\<lambda>c. lower (name c) = lower (data_name nigeria_upper_data)) (countries s2) = [c2]
       \<and> capital c2 = Some ''Lagos'' \<and> population c2 = 5 \<and> estimated_gdp c2 = Some 0"
    unfolding d g by simp
  then have "\<exists>c1 s1 w1 c2 s2 w2.
         upsert_country example_env empty_db nigeria_data example_rates world0 = (Inr (c1, s1), w1)
       \<and> upsert_country example_env s1 nigeria_upper_data example_rates w1 = (Inr (c2, s2), w2)
       \<and> filter (\<lambda>c. lower (name c) = lower (data_name nigeria_upper_data)) (countries s2) = [c2]
       \<and> capital c2 = Some ''Lagos'' \<and> population c2 = 5 \<and> estimated_gdp c2 = Some 0"
    by (intro exI)
  with h1 h2 all rows show ?thesis by (intro conjI)
qed

section \<open>The derivation engine\<close>

text \<open>
  Claim C3, as amended.  With a draw \<open>r\<close> of \<^verbatim>\<open>random.random()\<close> in \<open>[0, 1)\<close>,
  \<^verbatim>\<open>calculate_estimated_gdp\<close> returns nothing exactly when the rate is absent or \<open>0\<close>;
  otherwise it returns the double \<open>p * U / rate\<close> for the multiplier
  \<open>U = 1000 + 1000 * r\<close> that \<^verbatim>\<open>random.uniform(1000, 2000)\<close> computes in doubles from
  the uniform draw, and \<open>U\<close> lies in the closed interval \<open>[1000, 2000]\<close>.  For a population
  \<open>p \<ge> 0\<close> and a positive rate the result lies between the doubles \<open>p * 1000 / rate\<close>
  and \<open>p * 2000 / rate\<close>, both included; for the population \<open>0\<close> it is \<open>0\<close>; for a
  negative rate the two bounds change places.
\<close>

theorem calculate_estimated_gdp_range:
  assumes "0 \<le> random_draw e (draws w)" and "random_draw e (draws w) < 1"
  shows "(fst (calculate_estimated_gdp e p rate w) = None \<longleftrightarrow> rate = None \<or> rate = Some 0)
    \<and> (rate = Some r \<and> r \<noteq> 0 \<longrightarrow>
         (let U = fst (random_uniform e 1000 2000 w); gdp = gdp_formula p U r
          in U = round_double (1000 + round_double (1000 * random_draw e (draws w)))
             \<and> 1000 \<le> U \<and> U \<le> 2000
             \<and> fst (calculate_estimated_gdp e p rate w) = Some gdp
             \<and> (0 \<le> p \<and> 0 < r \<longrightarrow>
                  gdp_formula p 1000 r \<le> gdp \<and> gdp \<le> gdp_formula p 2000 r)
             \<and> (p = 0 \<longrightarrow> gdp = 0)
             \<and> (0 \<le> p \<and> r < 0 \<longrightarrow>
                  gdp_formula p 2000 r \<le> gdp \<and> gdp \<le> gdp_formula p 1000 r)))"
proof -
  define U where "U = fst (random_uniform e 1000 2000 w)"
  have U: "1000 \<le> U" "U \<le> 2000"
    using random_uniform_range [OF assms] by (simp_all add: U_def)
  have drawn: "U = round_double (1000 + round_double (1000 * random_draw e (draws w)))"
    by (simp add: U_def random_uniform_value)
  have none: "fst (calculate_estimated_gdp e p rate w) = None \<longleftrightarrow> rate = None \<or> rate = Some 0"
    by (cases rate) (simp_all add: calculate_estimated_gdp_def split_beta)
  have some: "fst (calculate_estimated_gdp e p rate w) = Some (gdp_formula p U r)"
    if "rate = Some r" "r \<noteq> 0"
    using that by (simp add: calculate_estimated_gdp_def split_beta U_def)
  have pos: "gdp_formula p 1000 r \<le> gdp_formula p U r \<and> gdp_formula p U r \<le> gdp_formula p 2000 r"
    if "0 \<le> p" "0 < r"
    using gdp_formula_mono [OF that(1) U(1) that(2)] gdp_formula_mono [OF that(1) U(2) that(2)]
    by simp
  have neg: "gdp_formula p 2000 r \<le> gdp_formula p U r \<and> gdp_formula p U r \<le> gdp_formula p 1000 r"
    if "0 \<le> p" "r < 0"
    using gdp_formula_antimono [OF that(1) U(1) that(2)]
      gdp_formula_antimono [OF that(1) U(2) that(2)]
    by simp
  have zero: "gdp_formula p U r = 0" if "p = 0"
    using that by simp
  show ?thesis
    unfolding Let_def U_def [symmetric]
    using none some pos neg zero U drawn by blast
qed

theorem calculate_estimated_gdp_range_witness:
  "0 \<le> random_draw example_env (draws world0) \<and> random_draw example_env (draws world0) < 1
   \<and> fst (random_uniform example_env 1000 2000 world0) = 1500
   \<and> fst (calculate_estimated_gdp example_env 200000000 (Some 1600) world0) = Some 187500000
   \<and> gdp_formula 200000000 1000 1600 = 125000000
   \<and> gdp_formula 200000000 2000 1600 = 250000000
   \<and> (125000000::real) \<le> 187500000 \<and> (187500000::real) \<le> 250000000"
proof -
  have h: "0 \<le> random_draw example_env (draws world0)"
    "random_draw example_env (draws world0) < 1"
    by (simp_all add: example_env_def world0_def)
  have v: "fst (random_uniform example_env 1000 2000 world0) = 1500"
    "gdp_formula 200000000 1500 1600 = 187500000"
    "gdp_formula 200000000 1000 1600 = 125000000"
    "gdp_formula 200000000 2000 1600 = 250000000"
    by code_simp+
  from calculate_estimated_gdp_range [OF h, of 200000000 "Some 1600" 1600]
  show ?thesis using h by (simp add: v Let_def)
qed

text \<open>
  The claim as it is written fails in three ways: for the population \<open>0\<close> the result is
  \<open>0\<close> and the interval \<open>[0, 0)\<close> is empty; for a negative rate the bounds are in the
  wrong order; and for the draw \<open>1 - 2\<^sup>-\<^sup>5\<^sup>3\<close>, the largest that
  \<^verbatim>\<open>random.random()\<close> returns, the sum \<open>1000 + 1000 * r\<close> rounds to \<open>2000\<close>, so that
  the multiplier and the result reach the excluded end point.
\<close>

theorem calculate_estimated_gdp_interval_counterexample:
  "0 \<le> random_draw example_env (draws world0) \<and> random_draw example_env (draws world0) < 1
   \<and> fst (calculate_estimated_gdp example_env 0 (Some 1) world0) = Some 0
   \<and> \<not> (real_of_int 0 * 1000 / 1 \<le> (0::real) \<and> (0::real) < real_of_int 0 * 2000 / 1)
   \<and> fst (calculate_estimated_gdp example_env 1 (Some (- 1)) world0) = Some (- 1500)
   \<and> \<not> (real_of_int 1 * 1000 / (- 1) \<le> (- 1500::real)
         \<and> (- 1500::real) < real_of_int 1 * 2000 / (- 1))
   \<and> 0 \<le> random_draw top_draw_env (draws world0) \<and> random_draw top_draw_env (draws world0) < 1
   \<and> fst (random_uniform top_draw_env 1000 2000 world0) = 2000
   \<and> fst (calculate_estimated_gdp top_draw_env 1 (Some 1) world0) = Some 2000
   \<and> \<not> ((2000::real) < real_of_int 1 * 2000 / 1)"
  by code_simp

section \<open>Records without economic inputs\<close>



section \<open>Uniqueness of names\<close>

text \<open>
  Claim C5, as amended.  In every state reached from the empty store by refresh cycles and
  deletions run one after the other, no two countries have names that are equal up to case,
  and the declared constraints hold; this is so because every upsert looks the name up
  ignoring case before it inserts.  The uniqueness constraint of the table is on the name
  as stored.
\<close>

theorem reachable_case_insensitive_unique:
  assumes "reachable db"
  shows "case_insensitive_unique (countries db) \<and> unique_name (countries db)
         \<and> primary_key (countries db) \<and> commit db = Inr db"
proof -
  from reachable_wf [OF assms] have well_formed: "well_formed db" .
  then have "case_insensitive_unique (countries db)" "primary_key (countries db)"
    by (simp_all add: well_formed_def)
  with case_insensitive_unique_name [of "countries db"] commit_of_wf [OF well_formed]
  show ?thesis by simp
qed

theorem reachable_case_insensitive_unique_witness:
  "reachable refreshed_db \<and> case_insensitive_unique (countries refreshed_db)
   \<and> commit refreshed_db = Inr refreshed_db"
proof -
  have "reachable refreshed_db"
    using reachable.refresh [OF reachable.initial example_run] .
  from this reachable_case_insensitive_unique [OF this] show ?thesis by simp
qed

text \<open>
  The declared constraints accept a table with the names \<open>Nigeria\<close> and \<open>NIGERIA\<close>: the
  uniqueness constraint is not on the case-normalised name.
\<close>

theorem unique_name_case_variants_counterexample:
  "primary_key (countries case_variants_db) \<and> unique_name (countries case_variants_db)
   \<and> commit case_variants_db = Inr case_variants_db
   \<and> map name (countries case_variants_db) = [''Nigeria'', ''NIGERIA'']
   \<and> lower ''Nigeria'' = lower ''NIGERIA''
   \<and> \<not> case_insensitive_unique (countries case_variants_db)"
  by code_simp

section \<open>The refresh cycle on success\<close>

text \<open>
  Claim C6.  A cycle that returns normally returns the number of fetched records and the
  time \<open>t\<close> it read from the clock after the last upsert (the last reading of the cycle);
  afterwards the metadata table has exactly one row with identifier \<open>1\<close>, whose
  \<^verbatim>\<open>last_refreshed_at\<close> is \<open>t\<close>.  If there was no such row it has been appended; if
  there was one, it has been updated in place and the identifiers of the table are as before.
  By \<open>refresh_all_countries_returns\<close> every cycle on a well-formed store whose two
  fetches succeed is such a run.
\<close>

theorem refresh_all_countries_metadata:
  assumes "refresh_all_countries e db w = (Inr (cnt, t), db', w')"
  shows "(\<exists>L. fetch_countries_data e = Inr L \<and> cnt = length L)
       \<and> Suc 0 \<le> ticks w' \<and> t = clock e (ticks w' - 1)
       \<and> filter (\<lambda>m. metadata_id m = 1) (metadata db')
           = [\<lparr>metadata_id = 1, metadata_last_refreshed_at = Some t\<rparr>]
       \<and> (filter (\<lambda>m. metadata_id m = 1) (metadata db) = []
            \<longrightarrow> metadata db' = metadata db
                   @ [\<lparr>metadata_id = 1, metadata_last_refreshed_at = Some t\<rparr>])
       \<and> (filter (\<lambda>m. metadata_id m = 1) (metadata db) \<noteq> []
            \<longrightarrow> map metadata_id (metadata db') = map metadata_id (metadata db))"
proof -
  from refresh_all_countries_success [OF assms]
  obtain L rates s1 w1 where L: "fetch_countries_data e = Inr L" "cnt = length L"
    and up: "upsert_all e rates L db w = (Inr s1, w1)"
    and meta: "update_app_metadata s1 t = Inr db'"
    and t: "t = clock e (ticks w1)" "ticks w' = Suc (ticks w1)"
    by blast
  from upsert_all_metadata [OF up] have same: "metadata s1 = metadata db" .
  from update_app_metadata_result [OF meta] show ?thesis
    unfolding same using L t by simp
qed

theorem refresh_all_countries_metadata_witness:
  "refresh_all_countries example_env empty_db world0
     = (Inr (2, 102), refreshed_db, world_after_refresh)
   \<and> fetch_countries_data example_env = Inr [nigeria_data, nigeria_upper_data]
   \<and> filter (\<lambda>m. metadata_id m = 1) (metadata empty_db) = []
   \<and> metadata refreshed_db = [\<lparr>metadata_id = 1, metadata_last_refreshed_at = Some 102\<rparr>]
   \<and> clock example_env (ticks world_after_refresh - 1) = 102"
proof -
  have run: "refresh_all_countries example_env empty_db world0
     = (Inr (2, 102), refreshed_db, world_after_refresh)"
    by code_simp
  have e: "filter (\<lambda>m. metadata_id m = 1) (metadata empty_db) = []"
    by (simp add: empty_db_def)
  have f: "fetch_countries_data example_env = Inr [nigeria_data, nigeria_upper_data]"
    by (simp add: fetch_countries_data_def example_env_def)
  from refresh_all_countries_metadata [OF run] e f
  show ?thesis using run by (simp add: empty_db_def)
qed

section \<open>Deletion\<close>

text \<open>
  Claim C7.  \<^verbatim>\<open>delete_country_by_name\<close> looks the name up ignoring case.  When no row
  matches it returns \<open>False\<close> and the store is unchanged; so for \<open>Wakanda\<close> on a store
  without countries.  On a well-formed store, when the row \<open>c\<close> matches it returns
  \<open>True\<close> and removes \<open>c\<close> alone, which leaves exactly the rows of other names; the
  boolean it returns says whether a row of that name existed.
\<close>

theorem delete_country_by_name_outcome:
  "(select_country_by_name db n = []
      \<longrightarrow> delete_country_by_name db n = (Inr False, db))
   \<and> (well_formed db \<and> select_country_by_name db n = [c]
      \<longrightarrow> delete_country_by_name db n
            = (Inr True, db\<lparr>countries := remove1 c (countries db)\<rparr>)
          \<and> remove1 c (countries db)
            = filter (\<lambda>r. lower (name r) \<noteq> lower n) (countries db))
   \<and> (well_formed db
      \<longrightarrow> fst (delete_country_by_name db n)
            = Inr (\<exists>r\<in>set (countries db). lower (name r) = lower n))
   \<and> delete_country_by_name \<lparr>countries = [], metadata = m, next_id = i\<rparr> ''Wakanda''
        = (Inr False, \<lparr>countries = [], metadata = m, next_id = i\<rparr>)"
proof -
  have absent: "delete_country_by_name db n = (Inr False, db)"
    if "select_country_by_name db n = []"
    using that by (simp add: delete_country_by_name_def get_country_by_name_def)
  have present: "delete_country_by_name db n
                  = (Inr True, db\<lparr>countries := remove1 c (countries db)\<rparr>)
                \<and> remove1 c (countries db)
                  = filter (\<lambda>r. lower (name r) \<noteq> lower n) (countries db)"
    if well_formed: "well_formed db" and sel: "select_country_by_name db n = [c]" for c
  proof -
    from well_formed have pk: "primary_key (countries db)"
      and ci: "case_insensitive_unique (countries db)"
      and mpk: "metadata_primary_key (metadata db)"
      by (simp_all add: well_formed_def)
    let ?rows = "filter (\<lambda>r. country_id r \<noteq> country_id c) (countries db)"
    from select_singleton_member [OF sel] have c: "c \<in> set (countries db)" by simp
    have rem: "?rows = remove1 c (countries db)"
      using filter_distinct_remove1 [of country_id "countries db" c] pk c
      by (simp add: primary_key_def)
    have byname: "?rows = filter (\<lambda>r. lower (name r) \<noteq> lower n) (countries db)"
      using delete_row_by_key [OF pk ci, of "lower n" c] sel
      by (simp add: select_country_by_name_def)
    have "primary_key ?rows"
      using pk unfolding primary_key_def by (rule distinct_map_filter_keep)
    moreover have "case_insensitive_unique ?rows"
      using ci unfolding case_insensitive_unique_def by (rule distinct_map_filter_keep)
    ultimately have "commit (db\<lparr>countries := ?rows\<rparr>) = Inr (db\<lparr>countries := ?rows\<rparr>)"
      using mpk by (intro commit_wf) simp_all
    then have "delete_country_by_name db n = (Inr True, db\<lparr>countries := ?rows\<rparr>)"
      using sel by (simp add: delete_country_by_name_def get_country_by_name_def)
    with rem byname show ?thesis by simp
  qed
  have found: "fst (delete_country_by_name db n)
            = Inr (\<exists>r\<in>set (countries db). lower (name r) = lower n)"
    if well_formed: "well_formed db"
  proof -
    from well_formed have ci: "case_insensitive_unique (countries db)" by (simp add: well_formed_def)
    from select_country_by_name_cases [OF ci, of n] show ?thesis
    proof
      assume e: "select_country_by_name db n = []"
      then have "\<not> (\<exists>r\<in>set (countries db). lower (name r) = lower n)"
        by (simp add: select_country_by_name_def filter_empty_conv)
      with absent [OF e] show ?thesis by simp
    next
      assume "\<exists>x. select_country_by_name db n = [x]"
      then obtain x where x: "select_country_by_name db n = [x]" ..
      from select_singleton_member [OF x]
      have "\<exists>r\<in>set (countries db). lower (name r) = lower n" by blast
      with present [OF well_formed x] show ?thesis by simp
    qed
  qed
  have wakanda: "delete_country_by_name \<lparr>countries = [], metadata = m, next_id = i\<rparr> ''Wakanda''
            = (Inr False, \<lparr>countries = [], metadata = m, next_id = i\<rparr>)"
    by (simp add: delete_country_by_name_def get_country_by_name_def select_country_by_name_def)
  from absent present found wakanda show ?thesis by blast
qed

theorem delete_country_by_name_outcome_witness:
  "well_formed one_country_db
   \<and> select_country_by_name one_country_db ''NIGERIA'' = [nigeria_row]
   \<and> delete_country_by_name one_country_db ''NIGERIA''
       = (Inr True, one_country_db\<lparr>countries := remove1 nigeria_row (countries one_country_db)\<rparr>)
   \<and> select_country_by_name one_country_db ''Wakanda'' = []
   \<and> delete_country_by_name one_country_db ''Wakanda'' = (Inr False, one_country_db)"
proof -
  have h: "well_formed one_country_db" by code_simp
  have s1: "select_country_by_name one_country_db ''NIGERIA'' = [nigeria_row]" by code_simp
  have s2: "select_country_by_name one_country_db ''Wakanda'' = []" by code_simp
  from delete_country_by_name_outcome [of one_country_db "''NIGERIA''" nigeria_row] h s1
  have d1: "delete_country_by_name one_country_db ''NIGERIA''
       = (Inr True, one_country_db\<lparr>countries := remove1 nigeria_row (countries one_country_db)\<rparr>)"
    by simp
  from delete_country_by_name_outcome [of one_country_db "''Wakanda''"] s2
  have d2: "delete_country_by_name one_country_db ''Wakanda'' = (Inr False, one_country_db)"
    by simp
  from h s1 s2 d1 d2 show ?thesis by simp
qed

section \<open>Image generation\<close>

text \<open>
  Claim C8.  When both fetches, every upsert, the metadata update and the commit succeed,
  the cycle returns its count and time and the committed state whatever the image generator
  does (\<open>f\<close> is any behaviour of it); when the generator raises \<open>x\<close>, the cycle prints
  the warning with \<open>x\<close> and returns all the same.
\<close>

theorem refresh_all_countries_image_failure:
  assumes "fetch_countries_data e = Inr L" and "fetch_exchange_rate e = Inr rates"
    and "upsert_all e rates L db w = (Inr s1, w1)"
    and "update_app_metadata s1 (clock e (ticks w1)) = Inr s2"
    and "commit s2 = Inr db2"
  shows "\<exists>w'. refresh_all_countries (e\<lparr>image_failure := f\<rparr>) db w
                 = (Inr (length L, clock e (ticks w1)), db2, w')
            \<and> (f (length L) (get_top_countries_by_gdp db2 5) (clock e (ticks w1)) = Some x
                 \<longrightarrow> stdout w' = stdout w1 @ [''Warning: Failed to generate image: '' @ str x])"
proof -
  let ?e = "e\<lparr>image_failure := f\<rparr>"
  have top: "take 5 (get_top_countries_by_gdp db2 5) = get_top_countries_by_gdp db2 5"
    by (simp add: get_top_countries_by_gdp_def)
  have "refresh_all_countries ?e db w
         = (Inr (length L, clock e (ticks w1)), db2,
            (case f (length L) (get_top_countries_by_gdp db2 5) (clock e (ticks w1)) of
               None \<Rightarrow> w1\<lparr>ticks := Suc (ticks w1)\<rparr>
             | Some x \<Rightarrow> print (''Warning: Failed to generate image: '' @ str x)
                           (w1\<lparr>ticks := Suc (ticks w1)\<rparr>)))"
    using refresh_all_countries_stages [of ?e L rates db w s1 w1 s2 db2] assms
    by (simp add: top)
  then show ?thesis
    by (auto simp: print_def split: option.splits)
qed

theorem refresh_all_countries_image_failure_witness:
  "fetch_countries_data example_env = Inr [nigeria_data, nigeria_upper_data]
   \<and> fetch_exchange_rate example_env = Inr example_rates
   \<and> upsert_all example_env example_rates [nigeria_data, nigeria_upper_data] empty_db world0
       = (Inr refreshed_session, world_after_upserts)
   \<and> update_app_metadata refreshed_session (clock example_env (ticks world_after_upserts))
       = Inr refreshed_db
   \<and> commit refreshed_db = Inr refreshed_db
   \<and> image_failure example_env 2 (get_top_countries_by_gdp refreshed_db 5) 102
       = Some (Exception ''cannot write cache/summary.png'')
   \<and> fst (refresh_all_countries example_env empty_db world0) = Inr (2, 102)
   \<and> fst (snd (refresh_all_countries example_env empty_db world0)) = refreshed_db
   \<and> stdout (snd (snd (refresh_all_countries example_env empty_db world0)))
       = [''Warning: Failed to generate image: cannot write cache/summary.png'']"
proof -
  have h1: "fetch_countries_data example_env = Inr [nigeria_data, nigeria_upper_data]"
    by (simp add: fetch_countries_data_def example_env_def)
  have h2: "fetch_exchange_rate example_env = Inr example_rates"
    by (simp add: fetch_exchange_rate_def example_env_def)
  have h3: "upsert_all example_env example_rates [nigeria_data, nigeria_upper_data] empty_db world0
       = (Inr refreshed_session, world_after_upserts)"
    by code_simp
  have h4: "update_app_metadata refreshed_session (clock example_env (ticks world_after_upserts))
       = Inr refreshed_db"
    by code_simp
  have h5: "commit refreshed_db = Inr refreshed_db"
    by code_simp
  have img: "image_failure example_env = (\<lambda>n top t. Some (Exception ''cannot write cache/summary.png''))"
    by (simp add: example_env_def)
  have same: "example_env\<lparr>image_failure := image_failure example_env\<rparr> = example_env"
    by simp
  have t: "clock example_env (ticks world_after_upserts) = 102"
    by (simp add: example_env_def world_after_upserts_def)
  have out: "stdout world_after_upserts = []"
    by (simp add: world_after_upserts_def)
  from refresh_all_countries_image_failure [OF h1 h2 h3 h4 h5,
      of "image_failure example_env" "Exception ''cannot write cache/summary.png''"]
  obtain w' where run: "refresh_all_countries example_env empty_db world0
                 = (Inr (length [nigeria_data, nigeria_upper_data], 102), refreshed_db, w')"
    and log: "image_failure example_env (length [nigeria_data, nigeria_upper_data])
                (get_top_countries_by_gdp refreshed_db 5) 102
                = Some (Exception ''cannot write cache/summary.png'')
              \<longrightarrow> stdout w' = [] @ [''Warning: Failed to generate image: ''
                                        @ str (Exception ''cannot write cache/summary.png'')]"
    unfolding same t out by (elim exE conjE)
  have i: "image_failure example_env 2 (get_top_countries_by_gdp refreshed_db 5) 102
       = Some (Exception ''cannot write cache/summary.png'')"
    by (simp add: img)
  from log have "stdout w'
       = [''Warning: Failed to generate image: cannot write cache/summary.png'']"
    by (simp add: img)
  with run i h1 h2 h3 h4 h5 show ?thesis by simp
qed

section \<open>Currency codes and listing\<close>

text \<open>
  Claim C9. \<^verbatim>\<open>extract_currency_code\<close> returns nothing for the empty list and the
  \<^verbatim>\<open>code\<close> of the first element otherwise, whatever follows it; so a first element
  that carries the code \<open>k\<close> gives \<open>k\<close>.  Being a function of its argument alone, it gives
  equal results on equal inputs.
\<close>

theorem extract_currency_code_first:
  "extract_currency_code [] = None
   \<and> extract_currency_code (c # cs) = code c
   \<and> extract_currency_code (\<lparr>code = Some k, currency_name = n, symbol = s\<rparr> # cs) = Some k"
  by simp



end
